theory Spec2Isabelle
  imports Complex_Main
begin

section \<open>Images and the image-library operations the pipeline calls\<close>

text \<open>
  A PIL image is its mode, its size and its pixel data (a list of rows). The pixel type
  is a parameter: the padding functions work on any mode, the orchestrators on RGB.
\<close>

record 'p image =
  mode :: string
  width :: int
  height :: int
  pixels :: "'p list list"

definition wf_image :: "'p image \<Rightarrow> bool" where
  "wf_image im \<longleftrightarrow>
     0 \<le> width im \<and> 0 \<le> height im \<and>
     length (pixels im) = nat (height im) \<and>
     list_all (\<lambda>row. length row = nat (width im)) (pixels im)"

definition getpixel :: "'p image \<Rightarrow> int \<Rightarrow> int \<Rightarrow> 'p" where
  "getpixel im x y = pixels im ! nat y ! nat x"

text \<open>\<^verbatim>\<open>Image.new(mode, (w, h), color)\<close>: a canvas filled with one colour.\<close>

definition Image_new :: "string \<Rightarrow> int \<times> int \<Rightarrow> 'p \<Rightarrow> 'p image" where
  "Image_new m sz color =
     \<lparr>mode = m, width = fst sz, height = snd sz,
      pixels = replicate (nat (snd sz)) (replicate (nat (fst sz)) color)\<rparr>"

text \<open>
  \<^verbatim>\<open>canvas.paste(im, (ox, oy))\<close>: the pixels of \<open>im\<close> replace those of the canvas in
  the rectangle whose upper left corner is \<open>(ox, oy)\<close>; the canvas keeps its size. The
  source mutates the canvas, the model returns the new one.
\<close>

definition paste :: "'p image \<Rightarrow> 'p image \<Rightarrow> int \<times> int \<Rightarrow> 'p image" where
  "paste canvas im off =
     (let ox = fst off; oy = snd off in
      canvas\<lparr>pixels :=
        map (\<lambda>y. map (\<lambda>x.
              if ox \<le> x \<and> x < ox + width im \<and> oy \<le> y \<and> y < oy + height im
              then getpixel im (x - ox) (y - oy)
              else getpixel canvas x y)
            [0 .. width canvas - 1])
          [0 .. height canvas - 1]\<rparr>)"

section \<open>Pad to square\<close>

text \<open>
  \<^verbatim>\<open>PriceTagReader._pad_to_square\<close> of price-project/main.py (lines 115-134) and of
  price-project/modal_app.py (lines 209-219), which are the same code.
\<close>

definition pad_to_square :: "'p image \<Rightarrow> 'p \<Rightarrow> 'p image" where
  "pad_to_square pil_img background_color =
     (let w = width pil_img; h = height pil_img in
      if w = h then pil_img
      else
        let size = max w h;
            result = Image_new (mode pil_img) (size, size) background_color
        in paste result pil_img ((size - w) div 2, (size - h) div 2))"

text \<open>\<^verbatim>\<open>PriceTagReader._pad_to_square\<close> of jupyter/modal_app.py (lines 138-151).\<close>

definition pad_to_square_jupyter :: "'p image \<Rightarrow> 'p \<Rightarrow> 'p image" where
  "pad_to_square_jupyter pil_img background_color =
     (let w = width pil_img; h = height pil_img in
      if w = h then pil_img
      else if w > h then
        paste (Image_new (mode pil_img) (w, w) background_color) pil_img (0, (w - h) div 2)
      else
        paste (Image_new (mode pil_img) (h, h) background_color) pil_img ((h - w) div 2, 0))"

section \<open>Detections, records and the capabilities of the environment\<close>

text \<open>
  A Python exception is a value; \<open>str\<close> is its message, as \<^verbatim>\<open>str(e)\<close> gives it.
\<close>

datatype exn = ValueError string | KeyError string | RequestException string | Exception string

fun str :: "exn \<Rightarrow> string" where
  "str (ValueError m) = m"
| "str (KeyError m) = m"
| "str (RequestException m) = m"
| "str (Exception m) = m"

type_synonym rgb = "nat \<times> nat \<times> nat"
type_synonym bytes = "nat list"
type_synonym ndarray = "nat list list list"

text \<open>
  One detection of the detector: \<open>xyxy\<close> is \<^verbatim>\<open>box.xyxy[0].cpu().numpy().astype(int)\<close>,
  \<open>conf\<close> is \<^verbatim>\<open>box.conf[0]\<close> and \<open>cls\<close> is \<^verbatim>\<open>int(box.cls[0])\<close>. Python floats are
  the type parameter \<open>'f\<close>; their arithmetic is left to the environment.
\<close>

record 'f box =
  xyxy :: "int \<times> int \<times> int \<times> int"
  conf :: 'f
  cls :: int

text \<open>
  One entry of \<^verbatim>\<open>price_tags\<close>: the keys \<^verbatim>\<open>bbox\<close>, \<^verbatim>\<open>text\<close>, \<^verbatim>\<open>confidence\<close>, \<^verbatim>\<open>class\<close>
  and, where the source writes it, \<^verbatim>\<open>error\<close> (\<open>None\<close> when the key is absent).
\<close>

record 'f price_tag =
  bbox :: "int list"
  text_field :: string
  confidence :: 'f
  class_field :: string
  error_field :: "string option"

record 'f extraction_result =
  count :: int
  price_tags :: "'f price_tag list"

text \<open>
  What the code calls and does not implement: the detector, the OCR model, the image
  library's decoding, conversion and resampling, the HTTP client and float arithmetic.
  A call that may raise returns a sum. \<open>generate\<close> is the whole OCR call on the prepared
  image (loading the model if needed, the chat template, the processor, \<^verbatim>\<open>model.generate\<close>,
  decoding and \<^verbatim>\<open>strip\<close>); \<open>requests_get\<close> is \<^verbatim>\<open>requests.get\<close> followed by
  \<^verbatim>\<open>raise_for_status\<close>, returning \<^verbatim>\<open>response.content\<close>; \<open>truediv\<close>, \<open>mul\<close> and \<open>int_of\<close> are
  \<^verbatim>\<open>/\<close> on two ints, \<^verbatim>\<open>*\<close> of an int and a float, and \<^verbatim>\<open>int()\<close> of a float;
  \<open>round3\<close> is \<^verbatim>\<open>round(x, 3)\<close>. The source's variable \<^verbatim>\<open>image\<close> is written \<open>img\<close>.
\<close>

record 'f env =
  predict :: "rgb image \<Rightarrow> real \<Rightarrow> exn + 'f box list list"
  names :: "int \<rightharpoonup> string"
  generate :: "rgb image \<Rightarrow> exn + string"
  resize :: "rgb image \<Rightarrow> int \<times> int \<Rightarrow> exn + rgb image"
  thumbnail :: "rgb image \<Rightarrow> int \<times> int \<Rightarrow> rgb image"
  convert_rgb :: "rgb image \<Rightarrow> exn + rgb image"
  image_open :: "bytes \<Rightarrow> exn + rgb image"
  fromarray :: "ndarray \<Rightarrow> exn + rgb image"
  requests_get :: "string \<Rightarrow> exn + bytes"
  truediv :: "int \<Rightarrow> int \<Rightarrow> 'f"
  mul :: "int \<Rightarrow> 'f \<Rightarrow> 'f"
  int_of :: "'f \<Rightarrow> int"
  round3 :: "'f \<Rightarrow> 'f"

datatype py_input = PILImage "rgb image" | NDArray ndarray | Bytes bytes | Other

text \<open>
  \<^verbatim>\<open>image.crop((left, upper, right, lower))\<close>: raises when right < left or lower < upper;
  otherwise the region, with the part outside the image filled with zeros.
\<close>

definition crop :: "rgb image \<Rightarrow> int \<times> int \<times> int \<times> int \<Rightarrow> exn + rgb image" where
  "crop im b =
     (case b of (left, upper, right, lower) \<Rightarrow>
        if right < left then Inl (ValueError ''Coordinate right is less than left'')
        else if lower < upper then Inl (ValueError ''Coordinate lower is less than upper'')
        else Inr \<lparr>mode = mode im, width = right - left, height = lower - upper,
          pixels =
            map (\<lambda>y. map (\<lambda>x.
                  if 0 \<le> x \<and> x < width im \<and> 0 \<le> y \<and> y < height im
                  then getpixel im x y else (0, 0, 0))
                [left .. right - 1])
              [upper .. lower - 1]\<rparr>)"

definition bbox_of :: "int \<times> int \<times> int \<times> int \<Rightarrow> int list" where
  "bbox_of b = (case b of (x1, y1, x2, y2) \<Rightarrow> [x1, y1, x2, y2])"

section \<open>Text extraction\<close>

text \<open>
  The resize block of \<^verbatim>\<open>_extract_text\<close> (price-project/main.py, lines 147-152) and of
  \<^verbatim>\<open>NanonetsOCR.extract_text\<close> (price-project/modal_app.py, lines 144-149).
\<close>

definition resize_if_large :: "'f env \<Rightarrow> rgb image \<Rightarrow> exn + rgb image" where
  "resize_if_large env img =
     (let max_size = 1024 in
      if max (width img) (height img) > max_size then
        let scale = truediv env max_size (max (width img) (height img));
            new_size = (int_of env (mul env (width img) scale),
                        int_of env (mul env (height img) scale))
        in resize env img new_size
      else Inr img)"

text \<open>
  \<^verbatim>\<open>NanonetsOCR.extract_text\<close> of price-project/modal_app.py: nothing is caught.
\<close>

definition NanonetsOCR_extract_text :: "'f env \<Rightarrow> rgb image \<Rightarrow> exn + string" where
  "NanonetsOCR_extract_text env img =
     (case resize_if_large env img of
        Inl e \<Rightarrow> Inl e
      | Inr img' \<Rightarrow> generate env img')"

text \<open>
  \<^verbatim>\<open>PriceTagReader._extract_text\<close> of price-project/main.py: the same body inside
  \<^verbatim>\<open>try\<close>; \<^verbatim>\<open>except Exception\<close> logs and returns the empty string.
\<close>

definition extract_text :: "'f env \<Rightarrow> rgb image \<Rightarrow> string" where
  "extract_text env img =
     (case resize_if_large env img of
        Inl e \<Rightarrow> []
      | Inr img' \<Rightarrow>
          (case generate env img' of
             Inl e \<Rightarrow> []
           | Inr generated_text \<Rightarrow> generated_text))"

text \<open>\<^verbatim>\<open>NanonetsOCR.extract_text\<close> of jupyter/modal_app.py: no resize, nothing caught.\<close>

definition NanonetsOCR_extract_text_jupyter :: "'f env \<Rightarrow> rgb image \<Rightarrow> exn + string" where
  "NanonetsOCR_extract_text_jupyter env img = generate env img"

section \<open>The orchestrator of price-project/main.py\<close>

definition DETECTION_CONF_THRESHOLD :: real where
  "DETECTION_CONF_THRESHOLD = 0.25"

text \<open>Lines 243-244: the box clamped to the image bounds.\<close>

definition clamp_box :: "rgb image \<Rightarrow> int \<times> int \<times> int \<times> int \<Rightarrow> int \<times> int \<times> int \<times> int" where
  "clamp_box img b =
     (case b of (x1, y1, x2, y2) \<Rightarrow>
        (max 0 x1, max 0 y1, min (width img) x2, min (height img) y2))"

text \<open>
  The body of the \<^verbatim>\<open>try\<close> of one detection (lines 238-272). \<open>Inr None\<close> is the
  \<^verbatim>\<open>continue\<close> of an invalid box, \<open>Inl e\<close> an exception raised in the body.
\<close>

definition process_box :: "'f env \<Rightarrow> rgb image \<Rightarrow> 'f box \<Rightarrow> exn + 'f price_tag option" where
  "process_box env img box =
     (case clamp_box img (xyxy box) of (x1, y1, x2, y2) \<Rightarrow>
        if x2 \<le> x1 \<or> y2 \<le> y1 then Inr None
        else
          (case crop img (x1, y1, x2, y2) of
             Inl e \<Rightarrow> Inl e
           | Inr cropped_img \<Rightarrow>
               let padded_img = pad_to_square cropped_img (255, 255, 255);
                   confidence = conf box;
                   class_id = cls box;
                   class_name = (case names env class_id of None \<Rightarrow> ''price_tag'' | Some n \<Rightarrow> n);
                   text = extract_text env padded_img
               in Inr (Some \<lparr>bbox = bbox_of (xyxy box), text_field = text,
                     confidence = round3 env confidence, class_field = class_name,
                     error_field = None\<rparr>)))"

text \<open>
  The loop over the boxes of one result; \<^verbatim>\<open>except Exception\<close> logs and goes on to
  the next detection.
\<close>

fun process_boxes :: "'f env \<Rightarrow> rgb image \<Rightarrow> 'f box list \<Rightarrow> 'f price_tag list \<Rightarrow> 'f price_tag list" where
  "process_boxes env img [] tags = tags"
| "process_boxes env img (box # boxes) tags =
     process_boxes env img boxes
       (case process_box env img box of
          Inl e \<Rightarrow> tags
        | Inr None \<Rightarrow> tags
        | Inr (Some tag) \<Rightarrow> tags @ [tag])"

fun process_results :: "'f env \<Rightarrow> rgb image \<Rightarrow> 'f box list list \<Rightarrow> 'f price_tag list \<Rightarrow> 'f price_tag list" where
  "process_results env img [] tags = tags"
| "process_results env img (boxes # results) tags =
     process_results env img results (process_boxes env img boxes tags)"

text \<open>Lines 213-223: the input as an RGB image.\<close>

definition to_rgb_image :: "'f env \<Rightarrow> py_input \<Rightarrow> exn + rgb image" where
  "to_rgb_image env img =
     (case (case img of
              Bytes b \<Rightarrow> (case image_open env b of Inl e \<Rightarrow> Inl e | Inr im \<Rightarrow> convert_rgb env im)
            | NDArray a \<Rightarrow> (case fromarray env a of Inl e \<Rightarrow> Inl e | Inr im \<Rightarrow> convert_rgb env im)
            | PILImage im \<Rightarrow> Inr im
            | Other \<Rightarrow> Inl (ValueError ''Input must be a PIL Image, numpy array, or bytes'')) of
        Inl e \<Rightarrow> Inl e
      | Inr im \<Rightarrow> if mode im \<noteq> ''RGB'' then convert_rgb env im else Inr im)"

definition detect_and_extract :: "'f env \<Rightarrow> py_input \<Rightarrow> exn + 'f extraction_result" where
  "detect_and_extract env image_in =
     (case to_rgb_image env image_in of
        Inl e \<Rightarrow> Inl e
      | Inr img \<Rightarrow>
          (case predict env img DETECTION_CONF_THRESHOLD of
             Inl e \<Rightarrow> Inl e
           | Inr results \<Rightarrow>
               let price_tags = process_results env img results []
               in Inr \<lparr>count = int (length price_tags), price_tags = price_tags\<rparr>))"

section \<open>The orchestrator of price-project/modal\_app.py\<close>

text \<open>
  \<^verbatim>\<open>PriceTagReader._detect_and_extract\<close>, lines 268-334: as in main.py, but the text
  comes from \<^verbatim>\<open>NanonetsOCR.extract_text\<close>, which may raise inside the \<^verbatim>\<open>try\<close>.
\<close>

definition process_box_modal :: "'f env \<Rightarrow> rgb image \<Rightarrow> 'f box \<Rightarrow> exn + 'f price_tag option" where
  "process_box_modal env img box =
     (case clamp_box img (xyxy box) of (x1, y1, x2, y2) \<Rightarrow>
        if x2 \<le> x1 \<or> y2 \<le> y1 then Inr None
        else
          (case crop img (x1, y1, x2, y2) of
             Inl e \<Rightarrow> Inl e
           | Inr cropped_img \<Rightarrow>
               let padded_img = pad_to_square cropped_img (255, 255, 255);
                   confidence = conf box;
                   class_id = cls box;
                   class_name = (case names env class_id of None \<Rightarrow> ''price_tag'' | Some n \<Rightarrow> n)
               in (case NanonetsOCR_extract_text env padded_img of
                     Inl e \<Rightarrow> Inl e
                   | Inr text \<Rightarrow>
                       Inr (Some \<lparr>bbox = bbox_of (xyxy box), text_field = text,
                         confidence = round3 env confidence, class_field = class_name,
                         error_field = None\<rparr>))))"

fun process_boxes_modal :: "'f env \<Rightarrow> rgb image \<Rightarrow> 'f box list \<Rightarrow> 'f price_tag list \<Rightarrow> 'f price_tag list" where
  "process_boxes_modal env img [] tags = tags"
| "process_boxes_modal env img (box # boxes) tags =
     process_boxes_modal env img boxes
       (case process_box_modal env img box of
          Inl e \<Rightarrow> tags
        | Inr None \<Rightarrow> tags
        | Inr (Some tag) \<Rightarrow> tags @ [tag])"

fun process_results_modal :: "'f env \<Rightarrow> rgb image \<Rightarrow> 'f box list list \<Rightarrow> 'f price_tag list \<Rightarrow> 'f price_tag list" where
  "process_results_modal env img [] tags = tags"
| "process_results_modal env img (boxes # results) tags =
     process_results_modal env img results (process_boxes_modal env img boxes tags)"

definition to_image_modal :: "'f env \<Rightarrow> py_input \<Rightarrow> exn + rgb image" where
  "to_image_modal env img =
     (case img of
        Bytes b \<Rightarrow> (case image_open env b of Inl e \<Rightarrow> Inl e | Inr im \<Rightarrow> convert_rgb env im)
      | NDArray a \<Rightarrow> (case fromarray env a of Inl e \<Rightarrow> Inl e | Inr im \<Rightarrow> convert_rgb env im)
      | PILImage im \<Rightarrow> Inr im
      | Other \<Rightarrow> Inl (ValueError ''Input must be bytes, numpy array, or a PIL Image''))"

definition detect_and_extract_modal :: "'f env \<Rightarrow> py_input \<Rightarrow> exn + 'f extraction_result" where
  "detect_and_extract_modal env image_in =
     (case to_image_modal env image_in of
        Inl e \<Rightarrow> Inl e
      | Inr img \<Rightarrow>
          (case predict env img 0.25 of
             Inl e \<Rightarrow> Inl e
           | Inr results \<Rightarrow>
               let price_tags = process_results_modal env img results []
               in Inr \<lparr>count = int (length price_tags), price_tags = price_tags\<rparr>))"

section \<open>The orchestrator of jupyter/modal\_app.py\<close>

text \<open>
  The body of the loop of \<^verbatim>\<open>_detect_and_extract\<close> (lines 220-252): the raw box is
  cropped, without clamping; only the OCR call is inside a \<^verbatim>\<open>try\<close>, whose handler
  appends a record with empty text and the error.
\<close>

definition process_box_jupyter :: "'f env \<Rightarrow> rgb image \<Rightarrow> 'f box \<Rightarrow> exn + 'f price_tag" where
  "process_box_jupyter env img box =
     (case crop img (xyxy box) of
        Inl e \<Rightarrow> Inl e
      | Inr cropped_img \<Rightarrow>
          let confidence = conf box in
          (case names env (cls box) of
             None \<Rightarrow> Inl (KeyError ''class id'')
           | Some class_name \<Rightarrow>
               let padded_img = pad_to_square_jupyter cropped_img (255, 255, 255);
                   padded_img = thumbnail env padded_img (1024, 1024)
               in (case NanonetsOCR_extract_text_jupyter env padded_img of
                     Inr text \<Rightarrow>
                       Inr \<lparr>bbox = bbox_of (xyxy box), text_field = text,
                         confidence = confidence, class_field = class_name,
                         error_field = None\<rparr>
                   | Inl e \<Rightarrow>
                       Inr \<lparr>bbox = bbox_of (xyxy box), text_field = [],
                         confidence = confidence, class_field = class_name,
                         error_field = Some (str e)\<rparr>)))"

fun process_boxes_jupyter :: "'f env \<Rightarrow> rgb image \<Rightarrow> 'f box list \<Rightarrow> 'f price_tag list \<Rightarrow> exn + 'f price_tag list" where
  "process_boxes_jupyter env img [] tags = Inr tags"
| "process_boxes_jupyter env img (box # boxes) tags =
     (case process_box_jupyter env img box of
        Inl e \<Rightarrow> Inl e
      | Inr tag \<Rightarrow> process_boxes_jupyter env img boxes (tags @ [tag]))"

fun process_results_jupyter :: "'f env \<Rightarrow> rgb image \<Rightarrow> 'f box list list \<Rightarrow> 'f price_tag list \<Rightarrow> exn + 'f price_tag list" where
  "process_results_jupyter env img [] tags = Inr tags"
| "process_results_jupyter env img (boxes # results) tags =
     (case process_boxes_jupyter env img boxes tags of
        Inl e \<Rightarrow> Inl e
      | Inr tags' \<Rightarrow> process_results_jupyter env img results tags')"

definition detect_and_extract_jupyter :: "'f env \<Rightarrow> py_input \<Rightarrow> exn + 'f extraction_result" where
  "detect_and_extract_jupyter env image_in =
     (case image_in of
        PILImage img \<Rightarrow>
          (case predict env img 0.1 of
             Inl e \<Rightarrow> Inl e
           | Inr results \<Rightarrow>
               (case process_results_jupyter env img results [] of
                  Inl e \<Rightarrow> Inl e
                | Inr tags \<Rightarrow>
                    Inr \<lparr>count = int (length tags), price_tags = tags\<rparr>))
      | _ \<Rightarrow> Inl (ValueError ''Input must be a PIL Image''))"

section \<open>The job status store and the job functions of price-project/modal\_app.py\<close>

text \<open>
  The values stored in \<^verbatim>\<open>job_statuses\<close> and sent in requests and responses are JSON-like;
  a dictionary literal is the list of its items, in the order the source writes them.
\<close>

datatype 'f jvalue =
    JNull
  | JBool bool
  | JInt int
  | JStr string
  | JResult "'f extraction_result"

type_synonym 'f pydict = "(string \<times> 'f jvalue) list"

type_synonym 'f job_store = "string \<rightharpoonup> 'f pydict"

definition submitted_entry :: "'f pydict" where
  "submitted_entry = [(''status'', JStr ''submitted''), (''result'', JNull)]"

definition completed_entry :: "'f extraction_result \<Rightarrow> 'f pydict" where
  "completed_entry result = [(''status'', JStr ''completed''), (''result'', JResult result)]"

definition failed_entry :: "exn \<Rightarrow> 'f pydict" where
  "failed_entry e = [(''status'', JStr ''failed''), (''error'', JStr (str e))]"

definition status_of :: "'f pydict \<Rightarrow> 'f jvalue option" where
  "status_of entry = map_of entry ''status''"

text \<open>
  The body of the \<^verbatim>\<open>try\<close> of \<^verbatim>\<open>process_url_job\<close> (lines 381-385), up to the result of
  the orchestrator: the first exception raised ends it.
\<close>

definition url_job_result :: "'f env \<Rightarrow> string \<Rightarrow> exn + 'f extraction_result" where
  "url_job_result env url =
     (case requests_get env url of
        Inl e \<Rightarrow> Inl e
      | Inr content \<Rightarrow>
          (case image_open env content of
             Inl e \<Rightarrow> Inl e
           | Inr im \<Rightarrow>
               (case convert_rgb env im of
                  Inl e \<Rightarrow> Inl e
                | Inr img \<Rightarrow> detect_and_extract_modal env (PILImage img))))"

text \<open>The same for \<^verbatim>\<open>process_file_job\<close> (lines 396-398).\<close>

definition file_job_result :: "'f env \<Rightarrow> bytes \<Rightarrow> exn + 'f extraction_result" where
  "file_job_result env file_data =
     (case image_open env file_data of
        Inl e \<Rightarrow> Inl e
      | Inr im \<Rightarrow>
          (case convert_rgb env im of
             Inl e \<Rightarrow> Inl e
           | Inr img \<Rightarrow> detect_and_extract_modal env (PILImage img)))"

text \<open>
  The assignments to \<^verbatim>\<open>job_statuses\<close> that one run of a job function performs, in order:
  the one that ends the \<^verbatim>\<open>try\<close> body, or the one of the \<^verbatim>\<open>except Exception\<close> handler.
\<close>

definition process_url_job_writes :: "'f env \<Rightarrow> string \<Rightarrow> string \<Rightarrow> (string \<times> 'f pydict) list" where
  "process_url_job_writes env job_id url =
     (case url_job_result env url of
        Inr result \<Rightarrow> [(job_id, completed_entry result)]
      | Inl e \<Rightarrow> [(job_id, failed_entry e)])"

definition process_file_job_writes :: "'f env \<Rightarrow> string \<Rightarrow> bytes \<Rightarrow> (string \<times> 'f pydict) list" where
  "process_file_job_writes env job_id file_data =
     (case file_job_result env file_data of
        Inr result \<Rightarrow> [(job_id, completed_entry result)]
      | Inl e \<Rightarrow> [(job_id, failed_entry e)])"

definition apply_writes :: "'f job_store \<Rightarrow> (string \<times> 'f pydict) list \<Rightarrow> 'f job_store" where
  "apply_writes store ws = foldl (\<lambda>m kv. m(fst kv \<mapsto> snd kv)) store ws"

definition process_url_job :: "'f env \<Rightarrow> string \<Rightarrow> string \<Rightarrow> 'f job_store \<Rightarrow> 'f job_store" where
  "process_url_job env job_id url store =
     apply_writes store (process_url_job_writes env job_id url)"

definition process_file_job :: "'f env \<Rightarrow> string \<Rightarrow> bytes \<Rightarrow> 'f job_store \<Rightarrow> 'f job_store" where
  "process_file_job env job_id file_data store =
     apply_writes store (process_file_job_writes env job_id file_data)"

section \<open>Job submission\<close>

text \<open>
  \<^verbatim>\<open>submit_job_url\<close> (price-project/modal_app.py, lines 438-449; jupyter/modal_app.py, lines
  303-313). The state is the status store and the list of spawned calls; \<open>uuid_hex\<close> is
  \<^verbatim>\<open>uuid.uuid4().hex\<close>, which the caller of the model supplies.
\<close>

record 'f app_state =
  job_statuses :: "'f job_store"
  spawned :: "(string \<times> 'f jvalue) list"

datatype http_exception = HTTPException int string

fun truthy :: "'f jvalue \<Rightarrow> bool" where
  "truthy JNull = False"
| "truthy (JBool b) = b"
| "truthy (JInt n) = (n \<noteq> 0)"
| "truthy (JStr s) = (s \<noteq> [])"
| "truthy (JResult r) = True"

definition dict_get :: "(string \<rightharpoonup> 'f jvalue) \<Rightarrow> string \<Rightarrow> 'f jvalue" where
  "dict_get d k = (case d k of None \<Rightarrow> JNull | Some v \<Rightarrow> v)"

definition new_job_id :: "string \<Rightarrow> string" where
  "new_job_id uuid_hex = ''job_'' @ take 8 uuid_hex"

definition submit_job_url ::
  "(string \<rightharpoonup> 'f jvalue) \<Rightarrow> string \<Rightarrow> 'f app_state \<Rightarrow> (http_exception + 'f pydict) \<times> 'f app_state" where
  "submit_job_url request uuid_hex st =
     (let url = dict_get request ''url'' in
      if \<not> truthy url then (Inl (HTTPException 400 ''URL is required''), st)
      else
        let job_id = new_job_id uuid_hex;
            st1 = st\<lparr>job_statuses := (job_statuses st)(job_id \<mapsto> submitted_entry)\<rparr>;
            st2 = st1\<lparr>spawned := spawned st1 @ [(job_id, url)]\<rparr>
        in (Inr [(''job_id'', JStr job_id), (''status'', JStr ''submitted'')], st2))"

section \<open>Predicates used to state the properties\<close>

text \<open>A detection whose clamped box is degenerate: \<open>x2 \<le> x1\<close> or \<open>y2 \<le> y1\<close>.\<close>

definition degenerate :: "rgb image \<Rightarrow> 'f box \<Rightarrow> bool" where
  "degenerate img box =
     (case clamp_box img (xyxy box) of (x1, y1, x2, y2) \<Rightarrow> x2 \<le> x1 \<or> y2 \<le> y1)"

text \<open>
  The image that price-project/main.py hands to the OCR for a detection: the crop of the
  clamped box, padded to a square on white.
\<close>

definition padded_crop :: "rgb image \<Rightarrow> 'f box \<Rightarrow> exn + rgb image" where
  "padded_crop img box =
     (case crop img (clamp_box img (xyxy box)) of
        Inl e \<Rightarrow> Inl e
      | Inr cropped_img \<Rightarrow> Inr (pad_to_square cropped_img (255, 255, 255)))"

text \<open>Text extraction fails: the resize or the model call raises.\<close>

definition extraction_fails :: "'f env \<Rightarrow> rgb image \<Rightarrow> bool" where
  "extraction_fails env img = (case NanonetsOCR_extract_text env img of Inl e \<Rightarrow> True | Inr t \<Rightarrow> False)"

text \<open>The image that jupyter/modal_app.py hands to the OCR for a detection.\<close>

definition ocr_input_jupyter :: "'f env \<Rightarrow> rgb image \<Rightarrow> 'f box \<Rightarrow> exn + rgb image" where
  "ocr_input_jupyter env img box =
     (case crop img (xyxy box) of
        Inl e \<Rightarrow> Inl e
      | Inr cropped_img \<Rightarrow>
          Inr (thumbnail env (pad_to_square_jupyter cropped_img (255, 255, 255)) (1024, 1024)))"

text \<open>
  A detection for which price-project/modal_app.py appends a record: its clamped box is not
  degenerate and the text extraction on its padded crop does not raise.
\<close>

definition kept_modal :: "'f env \<Rightarrow> rgb image \<Rightarrow> 'f box \<Rightarrow> bool" where
  "kept_modal env img box \<longleftrightarrow>
     \<not> degenerate img box \<and>
     (case padded_crop img box of Inl e \<Rightarrow> False | Inr p \<Rightarrow> \<not> extraction_fails env p)"

section \<open>Concrete inputs\<close>

definition img31 :: "nat image" where
  "img31 = \<lparr>mode = ''L'', width = 3, height = 1, pixels = [[7, 8, 9]]\<rparr>"

definition img22 :: "rgb image" where
  "img22 = Image_new ''RGB'' (2, 2) (255, 255, 255)"

definition test_env :: "real box list \<Rightarrow> (rgb image \<Rightarrow> exn + string) \<Rightarrow> real env" where
  "test_env boxes ocr =
     \<lparr>predict = (\<lambda>img c. Inr [boxes]),
      names = [0 \<mapsto> ''price_tag''],
      generate = ocr,
      resize = (\<lambda>img sz. Inr img),
      thumbnail = (\<lambda>img sz. img),
      convert_rgb = (\<lambda>img. Inr (img\<lparr>mode := ''RGB''\<rparr>)),
      image_open = (\<lambda>b. if b = [] then Inl (Exception ''cannot identify image file'') else Inr img22),
      fromarray = (\<lambda>a. Inr img22),
      requests_get = (\<lambda>url. if url = ''http://unreachable'' then Inl (RequestException ''connection error'') else Inr [1]),
      truediv = (\<lambda>a b. real_of_int a / real_of_int b),
      mul = (\<lambda>a x. real_of_int a * x),
      int_of = floor,
      round3 = (\<lambda>x. x)\<rparr>"

definition box_valid :: "real box" where
  "box_valid = \<lparr>xyxy = (0, 0, 2, 2), conf = 0.9, cls = 0\<rparr>"

definition box_zero_area :: "real box" where
  "box_zero_area = \<lparr>xyxy = (1, 1, 1, 1), conf = 0.8, cls = 0\<rparr>"

definition box_inverted :: "real box" where
  "box_inverted = \<lparr>xyxy = (2, 2, 1, 1), conf = 0.8, cls = 0\<rparr>"

definition box_overhang :: "real box" where
  "box_overhang = \<lparr>xyxy = (- 1, - 1, 2, 2), conf = 0.9, cls = 0\<rparr>"

definition ocr_ok :: "rgb image \<Rightarrow> exn + string" where
  "ocr_ok img = Inr ''1.99''"

definition ocr_fails :: "rgb image \<Rightarrow> exn + string" where
  "ocr_fails img = Inl (Exception ''OCR failed'')"

definition store_submitted :: "real job_store" where
  "store_submitted = Map.empty(''job_1a2b3c4d'' \<mapsto> submitted_entry)"

definition empty_result :: "real extraction_result" where
  "empty_result = \<lparr>count = 0, price_tags = []\<rparr>"

definition state_with_job :: "real app_state" where
  "state_with_job =
     \<lparr>job_statuses = Map.empty(''job_deadbeef'' \<mapsto> completed_entry empty_result), spawned = []\<rparr>"

definition url_request :: "string \<rightharpoonup> real jvalue" where
  "url_request = Map.empty(''url'' \<mapsto> JStr ''http://example.com/tag.jpg'')"

section \<open>Properties of padding\<close>

lemma width_paste: "width (paste canvas im off) = width canvas"
  by (simp add: paste_def Let_def)

lemma height_paste: "height (paste canvas im off) = height canvas"
  by (simp add: paste_def Let_def)

lemma mode_paste: "mode (paste canvas im off) = mode canvas"
  by (simp add: paste_def Let_def)

lemma wf_paste:
  assumes "0 \<le> width canvas" and "0 \<le> height canvas"
  shows "wf_image (paste canvas im off)"
  using assms by (simp add: wf_image_def paste_def Let_def list_all_iff)

lemma getpixel_Image_new:
  assumes "0 \<le> x" "x < w" "0 \<le> y" "y < h"
  shows "getpixel (Image_new m (w, h) c) x y = c"
  using assms by (simp add: getpixel_def Image_new_def)

lemma nth_upto_from_zero:
  assumes "0 \<le> k" and "k < n"
  shows "[0 .. n - 1] ! nat k = k" and "nat k < length [0 .. n - 1]"
  using assms by simp_all

lemma getpixel_paste:
  assumes "0 \<le> x" "x < width canvas" "0 \<le> y" "y < height canvas"
  shows "getpixel (paste canvas im (ox, oy)) x y =
     (if ox \<le> x \<and> x < ox + width im \<and> oy \<le> y \<and> y < oy + height im
      then getpixel im (x - ox) (y - oy)
      else getpixel canvas x y)"
proof -
  let ?cell = "\<lambda>y x. if ox \<le> x \<and> x < ox + width im \<and> oy \<le> y \<and> y < oy + height im
      then getpixel im (x - ox) (y - oy) else getpixel canvas x y"
  note ys = nth_upto_from_zero [OF assms(3,4)]
  note xs = nth_upto_from_zero [OF assms(1,2)]
  have "pixels (paste canvas im (ox, oy)) =
      map (\<lambda>y. map (?cell y) [0 .. width canvas - 1]) [0 .. height canvas - 1]"
    by (simp add: paste_def)
  then have "getpixel (paste canvas im (ox, oy)) x y =
      map (\<lambda>y. map (?cell y) [0 .. width canvas - 1]) [0 .. height canvas - 1] ! nat y ! nat x"
    by (simp only: getpixel_def)
  also have "\<dots> = map (?cell y) [0 .. width canvas - 1] ! nat x"
    by (simp only: nth_map [OF ys(2)] ys(1))
  also have "\<dots> = ?cell y x"
    by (simp only: nth_map [OF xs(2)] xs(1))
  finally show ?thesis .
qed

lemma wf_Image_new: "0 \<le> w \<Longrightarrow> 0 \<le> h \<Longrightarrow> wf_image (Image_new m (w, h) c)"
  by (simp add: wf_image_def Image_new_def list_all_iff)

lemma pad_square_dims:
  assumes "width img \<noteq> height img"
  shows "width (pad_to_square img bg) = max (width img) (height img)"
    and "height (pad_to_square img bg) = max (width img) (height img)"
    and "mode (pad_to_square img bg) = mode img"
  using assms by (simp_all add: pad_to_square_def Let_def width_paste height_paste mode_paste Image_new_def)

lemma pad_square_pixel:
  assumes ne: "width img \<noteq> height img"
    and x: "0 \<le> x" "x < max (width img) (height img)"
    and y: "0 \<le> y" "y < max (width img) (height img)"
  shows "getpixel (pad_to_square img bg) x y =
     (if (max (width img) (height img) - width img) div 2 \<le> x \<and>
         x < (max (width img) (height img) - width img) div 2 + width img \<and>
         (max (width img) (height img) - height img) div 2 \<le> y \<and>
         y < (max (width img) (height img) - height img) div 2 + height img
      then getpixel img (x - (max (width img) (height img) - width img) div 2)
                        (y - (max (width img) (height img) - height img) div 2)
      else bg)"
proof -
  let ?s = "max (width img) (height img)"
  let ?canvas = "Image_new (mode img) (?s, ?s) bg"
  have p: "pad_to_square img bg = paste ?canvas img ((?s - width img) div 2, (?s - height img) div 2)"
    using ne by (simp add: pad_to_square_def Let_def)
  have cw: "width ?canvas = ?s" and ch: "height ?canvas = ?s"
    by (simp_all add: Image_new_def)
  have bgp: "getpixel ?canvas x y = bg"
    using x y by (rule getpixel_Image_new)
  show ?thesis
    unfolding p
    using getpixel_paste [of x ?canvas y img "(?s - width img) div 2" "(?s - height img) div 2"] x y
    by (simp only: cw ch bgp)
qed

text \<open>
  C6. A square image is returned as it is. Any other image becomes a square of side
  \<open>max width height\<close> in the same mode; the original sits at offset
  \<open>((side - width) div 2, (side - height) div 2)\<close> and every other pixel has the background
  colour. The result is a function of the image and the colour alone.
\<close>

theorem pad_to_square_spec:
  assumes "wf_image img"
  shows "(width img = height img \<longrightarrow> pad_to_square img bg = img) \<and>
     (width img \<noteq> height img \<longrightarrow>
        (let side = max (width img) (height img);
             ox = (side - width img) div 2;
             oy = (side - height img) div 2;
             r = pad_to_square img bg
         in wf_image r \<and> mode r = mode img \<and> width r = side \<and> height r = side \<and>
            (\<forall>x y. 0 \<le> x \<and> x < side \<and> 0 \<le> y \<and> y < side \<longrightarrow>
               getpixel r x y =
                 (if ox \<le> x \<and> x < ox + width img \<and> oy \<le> y \<and> y < oy + height img
                  then getpixel img (x - ox) (y - oy)
                  else bg))))"
proof (intro conjI impI)
  assume "width img = height img"
  then show "pad_to_square img bg = img" by (simp add: pad_to_square_def)
next
  assume ne: "width img \<noteq> height img"
  have nonneg: "0 \<le> max (width img) (height img)"
    using assms by (simp add: wf_image_def max_def)
  have wf: "wf_image (pad_to_square img bg)"
    using ne nonneg by (simp add: pad_to_square_def Let_def wf_paste Image_new_def)
  show "let side = max (width img) (height img);
             ox = (side - width img) div 2;
             oy = (side - height img) div 2;
             r = pad_to_square img bg
         in wf_image r \<and> mode r = mode img \<and> width r = side \<and> height r = side \<and>
            (\<forall>x y. 0 \<le> x \<and> x < side \<and> 0 \<le> y \<and> y < side \<longrightarrow>
               getpixel r x y =
                 (if ox \<le> x \<and> x < ox + width img \<and> oy \<le> y \<and> y < oy + height img
                  then getpixel img (x - ox) (y - oy)
                  else bg))"
    unfolding Let_def
    using wf pad_square_dims [OF ne, of bg] pad_square_pixel [OF ne, of _ _ bg]
    by blast
qed

theorem pad_to_square_spec_witness:
  "wf_image img31 \<and> width (pad_to_square img31 0) = 3 \<and> height (pad_to_square img31 0) = 3 \<and>
   getpixel (pad_to_square img31 0) 2 1 = 9 \<and> getpixel (pad_to_square img31 0) 2 0 = 0 \<and>
   pad_to_square img31 0 = \<lparr>mode = ''L'', width = 3, height = 3, pixels = [[0, 0, 0], [7, 8, 9], [0, 0, 0]]\<rparr>"
proof -
  have wf: "wf_image img31" by (simp add: img31_def wf_image_def)
  have px: "getpixel img31 2 0 = 9" by (simp add: img31_def getpixel_def)
  have ev: "pad_to_square img31 0 = \<lparr>mode = ''L'', width = 3, height = 3, pixels = [[0, 0, 0], [7, 8, 9], [0, 0, 0]]\<rparr>"
    by (simp add: pad_to_square_def img31_def Let_def paste_def Image_new_def getpixel_def upto.simps)
  from pad_to_square_spec [OF wf, of 0]
  have "getpixel (pad_to_square img31 0) 2 1 = 9 \<and> getpixel (pad_to_square img31 0) 2 0 = 0 \<and> width (pad_to_square img31 0) = 3 \<and> height (pad_to_square img31 0) = 3"
    using px by (simp add: img31_def Let_def)
  with wf ev show ?thesis by simp
qed

text \<open>
  C8. Padding to a square is idempotent: padding an already padded image returns it as it
  is. This holds for the generic version and for the three-way version.
\<close>

theorem pad_to_square_idempotent:
  "pad_to_square (pad_to_square img bg) bg = pad_to_square img bg \<and>
   pad_to_square_jupyter (pad_to_square_jupyter img bg) bg = pad_to_square_jupyter img bg"
  by (simp add: pad_to_square_def pad_to_square_jupyter_def Let_def width_paste height_paste
      Image_new_def)

text \<open>
  C10. The three-way branching version of padding and the generic version return the
  same image for every input image and every background colour.
\<close>

theorem pad_to_square_versions_agree:
  "pad_to_square_jupyter img bg = pad_to_square img bg"
  by (simp add: pad_to_square_def pad_to_square_jupyter_def Let_def max_def)

section \<open>Properties of the orchestrator of price-project/main.py\<close>

lemma process_boxes_append:
  "process_boxes env img (xs @ ys) acc = process_boxes env img ys (process_boxes env img xs acc)"
  by (induction xs arbitrary: acc) simp_all

lemma process_results_concat:
  "process_results env img results acc = process_boxes env img (concat results) acc"
  by (induction results arbitrary: acc) (simp_all add: process_boxes_append)

lemma process_box_degenerate:
  "degenerate img box \<Longrightarrow> process_box env img box = Inr None"
  by (auto simp: degenerate_def process_box_def split: prod.splits)

lemma crop_clamped:
  assumes "\<not> degenerate img box"
  shows "\<exists>c. crop img (clamp_box img (xyxy box)) = Inr c"
  using assms by (auto simp: degenerate_def crop_def split: prod.splits)

lemma process_box_valid:
  assumes "\<not> degenerate img box"
  shows "\<exists>t. process_box env img box = Inr (Some t) \<and> bbox t = bbox_of (xyxy box) \<and>
           error_field t = None \<and>
           (\<forall>p. padded_crop img box = Inr p \<longrightarrow> text_field t = extract_text env p)"
proof -
  obtain x1 y1 x2 y2 where cl: "clamp_box img (xyxy box) = (x1, y1, x2, y2)"
    by (metis prod_cases4)
  with assms have nd: "\<not> (x2 \<le> x1 \<or> y2 \<le> y1)" by (simp add: degenerate_def)
  from crop_clamped [OF assms] cl obtain c where c: "crop img (x1, y1, x2, y2) = Inr c" by auto
  show ?thesis
    using nd by (simp add: process_box_def cl c padded_crop_def Let_def)
qed

lemma process_boxes_length:
  "length (process_boxes env img boxes acc) =
     length acc + length (filter (\<lambda>b. \<not> degenerate img b) boxes)"
proof (induction boxes arbitrary: acc)
  case Nil
  show ?case by simp
next
  case (Cons b bs)
  show ?case
  proof (cases "degenerate img b")
    case True
    then show ?thesis by (simp add: Cons.IH process_box_degenerate)
  next
    case False
    from process_box_valid [OF False, of env] obtain t where "process_box env img b = Inr (Some t)"
      by blast
    with False show ?thesis by (simp add: Cons.IH)
  qed
qed

lemma process_boxes_filter:
  "process_boxes env img (filter (\<lambda>b. \<not> degenerate img b) boxes) acc =
   process_boxes env img boxes acc"
  by (induction boxes arbitrary: acc) (simp_all add: process_box_degenerate)

lemma process_boxes_set:
  "set (process_boxes env img boxes acc) =
     set acc \<union> {t. \<exists>b \<in> set boxes. process_box env img b = Inr (Some t)}"
proof (induction boxes arbitrary: acc)
  case Nil
  show ?case by simp
next
  case (Cons b bs)
  show ?case
    by (cases "process_box env img b") (auto simp: Cons.IH split: option.splits)
qed

lemma process_boxes_bbox:
  "map bbox (process_boxes env img boxes acc) =
     map bbox acc @ map (\<lambda>b. bbox_of (xyxy b)) (filter (\<lambda>b. \<not> degenerate img b) boxes)"
proof (induction boxes arbitrary: acc)
  case Nil
  show ?case by simp
next
  case (Cons b bs)
  show ?case
  proof (cases "degenerate img b")
    case True
    then show ?thesis by (simp add: Cons.IH process_box_degenerate)
  next
    case False
    from process_box_valid [OF False, of env] obtain t
      where "process_box env img b = Inr (Some t)" "bbox t = bbox_of (xyxy b)"
      by blast
    with False show ?thesis by (simp add: Cons.IH)
  qed
qed

lemma detect_and_extract_eq:
  assumes "to_rgb_image env inp = Inr img"
    and "predict env img DETECTION_CONF_THRESHOLD = Inr results"
  shows "detect_and_extract env inp =
     Inr \<lparr>count = int (length (process_boxes env img (concat results) [])),
          price_tags = process_boxes env img (concat results) []\<rparr>"
  using assms by (simp add: detect_and_extract_def process_results_concat Let_def)

text \<open>
  C5. When the input decodes to an image and the detector returns no detection, the
  result is \<open>count = 0\<close> with an empty record list, not an error; and in every result
  \<open>count\<close> is the length of the record list.
\<close>

theorem no_detections_empty_result:
  "(to_rgb_image env inp = Inr img \<and> predict env img DETECTION_CONF_THRESHOLD = Inr results \<and>
      concat results = [] \<longrightarrow>
      detect_and_extract env inp = Inr \<lparr>count = 0, price_tags = []\<rparr>) \<and>
   (detect_and_extract env inp = Inr r \<longrightarrow> count r = int (length (price_tags r)))"
proof (intro conjI impI)
  assume "to_rgb_image env inp = Inr img \<and> predict env img DETECTION_CONF_THRESHOLD = Inr results \<and>
      concat results = []"
  then have a: "to_rgb_image env inp = Inr img"
    and b: "predict env img DETECTION_CONF_THRESHOLD = Inr results"
    and c: "concat results = []"
    by blast+
  show "detect_and_extract env inp = Inr \<lparr>count = 0, price_tags = []\<rparr>"
    unfolding detect_and_extract_eq [OF a b] c by simp
next
  assume "detect_and_extract env inp = Inr r"
  then show "count r = int (length (price_tags r))"
    by (auto simp: detect_and_extract_def Let_def split: sum.splits)
qed

theorem no_detections_empty_result_witness:
  "to_rgb_image (test_env [] ocr_ok) (PILImage img22) = Inr img22 \<and>
   predict (test_env [] ocr_ok) img22 DETECTION_CONF_THRESHOLD = Inr [[]] \<and>
   detect_and_extract (test_env [] ocr_ok) (PILImage img22) =
     Inr \<lparr>count = 0, price_tags = []\<rparr> \<and>
   count \<lparr>count = 0, price_tags = ([] :: real price_tag list)\<rparr> =
     int (length (price_tags \<lparr>count = 0, price_tags = ([] :: real price_tag list)\<rparr>))"
proof -
  let ?env = "test_env [] ocr_ok"
  have a: "to_rgb_image ?env (PILImage img22) = Inr img22"
    by (simp add: to_rgb_image_def img22_def Image_new_def)
  have b: "predict ?env img22 DETECTION_CONF_THRESHOLD = Inr [[]]"
    by (simp add: test_env_def)
  from no_detections_empty_result [of ?env "PILImage img22" img22 "[[]]" "\<lparr>count = 0, price_tags = []\<rparr>"] a b
  show ?thesis by simp
qed

section \<open>Properties of the orchestrator of price-project/modal\_app.py\<close>

lemma process_boxes_modal_append:
  "process_boxes_modal env img (xs @ ys) acc =
     process_boxes_modal env img ys (process_boxes_modal env img xs acc)"
  by (induction xs arbitrary: acc) simp_all

lemma process_results_modal_concat:
  "process_results_modal env img results acc = process_boxes_modal env img (concat results) acc"
  by (induction results arbitrary: acc) (simp_all add: process_boxes_modal_append)

lemma process_box_modal_degenerate:
  "degenerate img box \<Longrightarrow> process_box_modal env img box = Inr None"
  by (auto simp: degenerate_def process_box_modal_def split: prod.splits)

lemma process_box_modal_Some:
  assumes "process_box_modal env img box = Inr (Some t)"
  shows "\<not> degenerate img box \<and> bbox t = bbox_of (xyxy box)"
  using assms
  by (auto simp: degenerate_def process_box_modal_def Let_def split: prod.splits if_splits sum.splits)

lemma process_boxes_modal_filter:
  "process_boxes_modal env img (filter (\<lambda>b. \<not> degenerate img b) boxes) acc =
   process_boxes_modal env img boxes acc"
  by (induction boxes arbitrary: acc) (simp_all add: process_box_modal_degenerate)

lemma process_boxes_modal_length:
  "length (process_boxes_modal env img boxes acc) \<le>
     length acc + length (filter (\<lambda>b. \<not> degenerate img b) boxes)"
proof (induction boxes arbitrary: acc)
  case Nil
  show ?case by simp
next
  case (Cons b bs)
  show ?case
  proof (cases "degenerate img b")
    case True
    then show ?thesis using Cons.IH [of acc] by (simp add: process_box_modal_degenerate)
  next
    case False
    show ?thesis
    proof (cases "process_box_modal env img b")
      case (Inl e)
      then show ?thesis using Cons.IH [of acc] False by simp
    next
      case (Inr opt)
      then show ?thesis
        using Cons.IH [of acc] Cons.IH [of "acc @ [the opt]"] False by (cases opt) simp_all
    qed
  qed
qed

lemma process_boxes_modal_set:
  "set (process_boxes_modal env img boxes acc) =
     set acc \<union> {t. \<exists>b \<in> set boxes. process_box_modal env img b = Inr (Some t)}"
proof (induction boxes arbitrary: acc)
  case Nil
  show ?case by simp
next
  case (Cons b bs)
  show ?case
    by (cases "process_box_modal env img b") (auto simp: Cons.IH split: option.splits)
qed

lemma detect_and_extract_modal_eq:
  assumes "to_image_modal env inp = Inr img"
    and "predict env img 0.25 = Inr results"
  shows "detect_and_extract_modal env inp =
     Inr \<lparr>count = int (length (process_boxes_modal env img (concat results) [])),
          price_tags = process_boxes_modal env img (concat results) []\<rparr>"
  using assms by (simp add: detect_and_extract_modal_def process_results_modal_concat Let_def)

section \<open>Properties of the orchestrator of jupyter/modal\_app.py\<close>

lemma process_boxes_jupyter_append:
  "process_boxes_jupyter env img (xs @ ys) acc =
     (case process_boxes_jupyter env img xs acc of
        Inl e \<Rightarrow> Inl e
      | Inr tags \<Rightarrow> process_boxes_jupyter env img ys tags)"
  by (induction xs arbitrary: acc) (simp_all split: sum.splits)

lemma process_results_jupyter_concat:
  "process_results_jupyter env img results acc = process_boxes_jupyter env img (concat results) acc"
  by (induction results arbitrary: acc) (simp_all add: process_boxes_jupyter_append split: sum.splits)

lemma process_boxes_jupyter_Inr:
  assumes "process_boxes_jupyter env img boxes acc = Inr tags"
  shows "\<exists>new. tags = acc @ new \<and>
           list_all2 (\<lambda>b t. process_box_jupyter env img b = Inr t) boxes new"
  using assms
proof (induction boxes arbitrary: acc)
  case Nil
  then show ?case by simp
next
  case (Cons b bs)
  from Cons.prems obtain t where t: "process_box_jupyter env img b = Inr t"
    and rest: "process_boxes_jupyter env img bs (acc @ [t]) = Inr tags"
    by (auto split: sum.splits)
  from Cons.IH [OF rest] obtain new where "tags = (acc @ [t]) @ new"
    and "list_all2 (\<lambda>b t. process_box_jupyter env img b = Inr t) bs new"
    by blast
  with t have "tags = acc @ (t # new) \<and>
      list_all2 (\<lambda>b t. process_box_jupyter env img b = Inr t) (b # bs) (t # new)"
    by simp
  then show ?case by blast
qed

lemma process_boxes_jupyter_total:
  assumes "\<forall>b \<in> set boxes. \<exists>t. process_box_jupyter env img b = Inr t"
  shows "\<exists>tags. process_boxes_jupyter env img boxes acc = Inr tags"
  using assms by (induction boxes arbitrary: acc) auto

lemma process_box_jupyter_returns:
  assumes "crop img (xyxy b) = Inr c" and "names env (cls b) = Some n"
  shows "\<exists>t. process_box_jupyter env img b = Inr t"
  using assms by (simp add: process_box_jupyter_def Let_def split: sum.splits)

lemma process_box_jupyter_failed_ocr:
  assumes "ocr_input_jupyter env img b = Inr p" and "generate env p = Inl e"
    and "process_box_jupyter env img b = Inr t"
  shows "bbox t = bbox_of (xyxy b) \<and> text_field t = [] \<and> error_field t = Some (str e)"
  using assms
  by (auto simp: ocr_input_jupyter_def process_box_jupyter_def NanonetsOCR_extract_text_jupyter_def
      Let_def split: sum.splits option.splits)

lemma detect_and_extract_jupyter_Inr:
  assumes "predict env img 0.1 = Inr results"
    and "detect_and_extract_jupyter env (PILImage img) = Inr r"
  shows "count r = int (length (price_tags r)) \<and>
     list_all2 (\<lambda>b t. process_box_jupyter env img b = Inr t) (concat results) (price_tags r)"
proof -
  from assms obtain tags where tags: "process_boxes_jupyter env img (concat results) [] = Inr tags"
    and r: "r = \<lparr>count = int (length tags), price_tags = tags\<rparr>"
    by (auto simp: detect_and_extract_jupyter_def process_results_jupyter_concat split: sum.splits)
  from process_boxes_jupyter_Inr [OF tags] r show ?thesis by auto
qed

lemma failed_extraction_jupyter:
  assumes p: "predict env img 0.1 = Inr results"
    and r: "detect_and_extract_jupyter env (PILImage img) = Inr r"
  shows "count r = int (length (concat results)) \<and>
     length (price_tags r) = length (concat results) \<and>
     (\<forall>i p e. i < length (concat results) \<and>
          ocr_input_jupyter env img (concat results ! i) = Inr p \<and> generate env p = Inl e \<longrightarrow>
          bbox (price_tags r ! i) = bbox_of (xyxy (concat results ! i)) \<and>
          text_field (price_tags r ! i) = [] \<and>
          error_field (price_tags r ! i) = Some (str e))"
proof -
  note all2 = detect_and_extract_jupyter_Inr [OF p r]
  then have len: "length (price_tags r) = length (concat results)"
    by (auto dest: list_all2_lengthD)
  have "bbox (price_tags r ! i) = bbox_of (xyxy (concat results ! i)) \<and>
          text_field (price_tags r ! i) = [] \<and>
          error_field (price_tags r ! i) = Some (str e)"
    if i: "i < length (concat results)"
      and q: "ocr_input_jupyter env img (concat results ! i) = Inr q"
      and e: "generate env q = Inl e" for i q e
  proof -
    from all2 i have "process_box_jupyter env img (concat results ! i) = Inr (price_tags r ! i)"
      by (auto dest: list_all2_nthD)
    with q e show ?thesis by (rule process_box_jupyter_failed_ocr)
  qed
  with all2 len show ?thesis by simp
qed

lemma process_boxes_jupyter_fails:
  assumes "b \<in> set boxes" and "process_box_jupyter env img b = Inl e"
  shows "\<exists>e'. process_boxes_jupyter env img boxes acc = Inl e'"
  using assms
proof (induction boxes arbitrary: acc)
  case Nil
  then show ?case by simp
next
  case (Cons x xs)
  show ?case
  proof (cases "process_box_jupyter env img x")
    case (Inl e1)
    then show ?thesis by simp
  next
    case (Inr t)
    with Cons.prems have "b \<in> set xs" by auto
    from Cons.IH [OF this Cons.prems(2)] Inr show ?thesis by simp
  qed
qed

lemma jupyter_keeps_every_detection:
  "(predict env img 0.1 = Inr results \<and> detect_and_extract_jupyter env (PILImage img) = Inr r \<longrightarrow>
      length (price_tags r) = length (concat results)) \<and>
   (predict env img 0.1 = Inr results \<and> box \<in> set (concat results) \<and>
      crop img (xyxy box) = Inl e \<longrightarrow>
      (\<exists>e'. detect_and_extract_jupyter env (PILImage img) = Inl e'))"
proof (intro conjI impI)
  assume "predict env img 0.1 = Inr results \<and> detect_and_extract_jupyter env (PILImage img) = Inr r"
  then show "length (price_tags r) = length (concat results)"
    using failed_extraction_jupyter [of env img results r] by blast
next
  assume h: "predict env img 0.1 = Inr results \<and> box \<in> set (concat results) \<and>
      crop img (xyxy box) = Inl e"
  then have "process_box_jupyter env img box = Inl e"
    by (simp add: process_box_jupyter_def)
  with h obtain e' where "process_boxes_jupyter env img (concat results) [] = Inl e'"
    using process_boxes_jupyter_fails by blast
  with h show "\<exists>e'. detect_and_extract_jupyter env (PILImage img) = Inl e'"
    by (simp add: detect_and_extract_jupyter_def process_results_jupyter_concat)
qed

section \<open>Degenerate boxes, stored boxes and failed extractions\<close>

lemma img22_eq:
  "img22 = \<lparr>mode = ''RGB'', width = 2, height = 2,
     pixels = [[(255, 255, 255), (255, 255, 255)], [(255, 255, 255), (255, 255, 255)]]\<rparr>"
  by (simp add: img22_def Image_new_def numeral_2_eq_2)

lemma crop_img22_full: "crop img22 (0, 0, 2, 2) = Inr img22"
  by (simp add: img22_eq crop_def getpixel_def upto.simps)

lemma to_rgb_image_img22: "to_rgb_image env (PILImage img22) = Inr img22"
  by (simp add: to_rgb_image_def img22_eq)

lemma test_env_fields:
  "predict (test_env boxes ocr) img c = Inr [boxes]"
  "names (test_env boxes ocr) = [0 \<mapsto> ''price_tag'']"
  "generate (test_env boxes ocr) = ocr"
  "thumbnail (test_env boxes ocr) img sz = img"
  "round3 (test_env boxes ocr) x = x"
  by (simp_all add: test_env_def)

lemma resize_if_large_img22: "resize_if_large env img22 = Inr img22"
  by (simp add: resize_if_large_def img22_eq)

lemma pad_img22: "pad_to_square img22 bg = img22" "pad_to_square_jupyter img22 bg = img22"
  by (simp_all add: pad_to_square_def pad_to_square_jupyter_def img22_eq)

lemma degenerate_examples:
  "\<not> degenerate img22 box_valid" "degenerate img22 box_zero_area"
  "degenerate img22 box_inverted" "\<not> degenerate img22 box_overhang"
  by (simp_all add: degenerate_def clamp_box_def img22_eq box_valid_def box_zero_area_def
      box_inverted_def box_overhang_def)

lemma process_box_valid_ok:
  "process_box (test_env boxes ocr_ok) img22 box_valid =
     Inr (Some \<lparr>bbox = [0, 0, 2, 2], text_field = ''1.99'', confidence = 0.9,
       class_field = ''price_tag'', error_field = None\<rparr>)"
proof -
  have cl: "clamp_box img22 (xyxy box_valid) = (0, 0, 2, 2)"
    by (simp add: clamp_box_def img22_eq box_valid_def)
  show ?thesis
    by (simp add: process_box_def cl crop_img22_full pad_img22 extract_text_def
        resize_if_large_img22 test_env_fields ocr_ok_def Let_def)
      (simp add: box_valid_def bbox_of_def)
qed

text \<open>
  C3, for the two price-project orchestrators (main.py and modal_app.py). When some
  detection has a degenerate clamped box, the call still returns a result, the records
  are those of the detections that remain once the degenerate ones are removed, and the
  record list is strictly shorter than the list of raw detections. The orchestrator of
  jupyter/modal_app.py has no clamping and no such check: when it returns, every
  detection has a record, and a box that the crop rejects ends the call with the error.
\<close>

theorem degenerate_boxes_skipped:
  "(to_rgb_image env inp = Inr img \<and> predict env img DETECTION_CONF_THRESHOLD = Inr results \<and>
      box \<in> set (concat results) \<and> degenerate img box \<longrightarrow>
      (\<exists>r. detect_and_extract env inp = Inr r \<and>
           price_tags r =
             process_results env img (map (filter (\<lambda>b. \<not> degenerate img b)) results) [] \<and>
           length (price_tags r) < length (concat results))) \<and>
   (to_image_modal env inp = Inr img \<and> predict env img 0.25 = Inr results \<and>
      box \<in> set (concat results) \<and> degenerate img box \<longrightarrow>
      (\<exists>r. detect_and_extract_modal env inp = Inr r \<and>
           price_tags r =
             process_results_modal env img (map (filter (\<lambda>b. \<not> degenerate img b)) results) [] \<and>
           length (price_tags r) < length (concat results))) \<and>
   (predict env img 0.1 = Inr results \<and> detect_and_extract_jupyter env (PILImage img) = Inr rj \<longrightarrow>
      length (price_tags rj) = length (concat results)) \<and>
   (predict env img 0.1 = Inr results \<and> box \<in> set (concat results) \<and>
      crop img (xyxy box) = Inl e \<longrightarrow>
      (\<exists>e'. detect_and_extract_jupyter env (PILImage img) = Inl e'))"
proof (intro conjI impI)
  assume h: "to_rgb_image env inp = Inr img \<and> predict env img DETECTION_CONF_THRESHOLD = Inr results \<and>
      box \<in> set (concat results) \<and> degenerate img box"
  then have less: "length (filter (\<lambda>b. \<not> degenerate img b) (concat results)) < length (concat results)"
    by (intro length_filter_less [of box]) auto
  have cf: "concat (map (filter (\<lambda>b. \<not> degenerate img b)) results) =
      filter (\<lambda>b. \<not> degenerate img b) (concat results)"
    by (simp add: filter_concat)
  from h have eq: "detect_and_extract env inp =
     Inr \<lparr>count = int (length (process_boxes env img (concat results) [])),
          price_tags = process_boxes env img (concat results) []\<rparr>"
    by (intro detect_and_extract_eq) auto
  have "length (process_boxes env img (concat results) []) < length (concat results)"
    using less by (simp add: process_boxes_length)
  then show "\<exists>r. detect_and_extract env inp = Inr r \<and>
           price_tags r =
             process_results env img (map (filter (\<lambda>b. \<not> degenerate img b)) results) [] \<and>
           length (price_tags r) < length (concat results)"
    unfolding eq by (simp add: process_results_concat cf process_boxes_filter)
next
  assume h: "to_image_modal env inp = Inr img \<and> predict env img 0.25 = Inr results \<and>
      box \<in> set (concat results) \<and> degenerate img box"
  then have less: "length (filter (\<lambda>b. \<not> degenerate img b) (concat results)) < length (concat results)"
    by (intro length_filter_less [of box]) auto
  have cf: "concat (map (filter (\<lambda>b. \<not> degenerate img b)) results) =
      filter (\<lambda>b. \<not> degenerate img b) (concat results)"
    by (simp add: filter_concat)
  from h have eq: "detect_and_extract_modal env inp =
     Inr \<lparr>count = int (length (process_boxes_modal env img (concat results) [])),
          price_tags = process_boxes_modal env img (concat results) []\<rparr>"
    by (intro detect_and_extract_modal_eq) auto
  have "length (process_boxes_modal env img (concat results) []) < length (concat results)"
    using less process_boxes_modal_length [of env img "concat results" "[]"] by simp
  then show "\<exists>r. detect_and_extract_modal env inp = Inr r \<and>
           price_tags r =
             process_results_modal env img (map (filter (\<lambda>b. \<not> degenerate img b)) results) [] \<and>
           length (price_tags r) < length (concat results)"
    unfolding eq by (simp add: process_results_modal_concat cf process_boxes_modal_filter)
next
  assume "predict env img 0.1 = Inr results \<and> detect_and_extract_jupyter env (PILImage img) = Inr rj"
  then show "length (price_tags rj) = length (concat results)"
    using jupyter_keeps_every_detection [of env img results rj] by blast
next
  assume "predict env img 0.1 = Inr results \<and> box \<in> set (concat results) \<and>
      crop img (xyxy box) = Inl e"
  then show "\<exists>e'. detect_and_extract_jupyter env (PILImage img) = Inl e'"
    using jupyter_keeps_every_detection [of env img results _ box e] by blast
qed

theorem degenerate_boxes_skipped_witness:
  "to_rgb_image (test_env [box_valid, box_zero_area] ocr_ok) (PILImage img22) = Inr img22 \<and>
   predict (test_env [box_valid, box_zero_area] ocr_ok) img22 DETECTION_CONF_THRESHOLD =
     Inr [[box_valid, box_zero_area]] \<and>
   degenerate img22 box_zero_area \<and>
   (\<exists>r. detect_and_extract (test_env [box_valid, box_zero_area] ocr_ok) (PILImage img22) = Inr r \<and>
        price_tags r =
          [\<lparr>bbox = [0, 0, 2, 2], text_field = ''1.99'', confidence = 0.9,
            class_field = ''price_tag'', error_field = None\<rparr>] \<and>
        length (price_tags r) < length [box_valid, box_zero_area])"
proof -
  let ?env = "test_env [box_valid, box_zero_area] ocr_ok"
  have a: "to_rgb_image ?env (PILImage img22) = Inr img22" by (rule to_rgb_image_img22)
  have b: "predict ?env img22 DETECTION_CONF_THRESHOLD = Inr [[box_valid, box_zero_area]]"
    by (simp add: test_env_fields)
  have c: "degenerate img22 box_zero_area" by (rule degenerate_examples)
  have f: "map (filter (\<lambda>b. \<not> degenerate img22 b)) [[box_valid, box_zero_area]] = [[box_valid]]"
    by (simp add: degenerate_examples)
  have m: "box_zero_area \<in> set (concat [[box_valid, box_zero_area]])" by simp
  note degenerate_boxes_skipped [of ?env "PILImage img22" img22 "[[box_valid, box_zero_area]]"
      box_zero_area, THEN conjunct1, THEN mp, OF conjI [OF a conjI [OF b conjI [OF m c]]]]
  then have "\<exists>r. detect_and_extract ?env (PILImage img22) = Inr r \<and>
        price_tags r = process_results ?env img22 [[box_valid]] [] \<and>
        length (price_tags r) < length [box_valid, box_zero_area]"
    unfolding f by simp
  then have "\<exists>r. detect_and_extract ?env (PILImage img22) = Inr r \<and>
        price_tags r =
          [\<lparr>bbox = [0, 0, 2, 2], text_field = ''1.99'', confidence = 0.9,
            class_field = ''price_tag'', error_field = None\<rparr>] \<and>
        length (price_tags r) < length [box_valid, box_zero_area]"
    by (simp add: process_box_valid_ok)
  with a b c show ?thesis by blast
qed

theorem degenerate_box_jupyter_counterexample:
  "degenerate img22 box_zero_area \<and>
   detect_and_extract_jupyter (test_env [box_zero_area] ocr_fails) (PILImage img22) =
     Inr \<lparr>count = 1, price_tags =
       [\<lparr>bbox = [1, 1, 1, 1], text_field = [], confidence = 0.8,
         class_field = ''price_tag'', error_field = Some ''OCR failed''\<rparr>]\<rparr> \<and>
   degenerate img22 box_inverted \<and>
   detect_and_extract_jupyter (test_env [box_inverted] ocr_ok) (PILImage img22) =
     Inl (ValueError ''Coordinate right is less than left'')"
proof -
  have z: "crop img22 (xyxy box_zero_area) =
      Inr \<lparr>mode = ''RGB'', width = 0, height = 0, pixels = []\<rparr>"
    by (simp add: crop_def box_zero_area_def img22_eq upto.simps)
  have pz: "process_box_jupyter (test_env [box_zero_area] ocr_fails) img22 box_zero_area =
      Inr \<lparr>bbox = [1, 1, 1, 1], text_field = [], confidence = 0.8,
         class_field = ''price_tag'', error_field = Some ''OCR failed''\<rparr>"
    by (simp add: process_box_jupyter_def z test_env_fields pad_to_square_jupyter_def
        NanonetsOCR_extract_text_jupyter_def ocr_fails_def Let_def)
      (simp add: box_zero_area_def bbox_of_def)
  have i: "crop img22 (xyxy box_inverted) = Inl (ValueError ''Coordinate right is less than left'')"
    by (simp add: crop_def box_inverted_def)
  have p_i: "process_box_jupyter (test_env [box_inverted] ocr_ok) img22 box_inverted =
      Inl (ValueError ''Coordinate right is less than left'')"
    by (simp add: process_box_jupyter_def i)
  show ?thesis
    by (simp add: degenerate_examples detect_and_extract_jupyter_def test_env_fields pz p_i)
qed

lemma process_box_overhang_ok:
  "process_box (test_env boxes ocr_ok) img22 box_overhang =
     Inr (Some \<lparr>bbox = [- 1, - 1, 2, 2], text_field = ''1.99'', confidence = 0.9,
       class_field = ''price_tag'', error_field = None\<rparr>)"
proof -
  have cl: "clamp_box img22 (xyxy box_overhang) = (0, 0, 2, 2)"
    by (simp add: clamp_box_def img22_eq box_overhang_def)
  show ?thesis
    by (simp add: process_box_def cl crop_img22_full pad_img22 extract_text_def
        resize_if_large_img22 test_env_fields ocr_ok_def Let_def)
      (simp add: box_overhang_def bbox_of_def)
qed

lemma process_box_modal_overhang_ok:
  "process_box_modal (test_env boxes ocr_ok) img22 box_overhang =
     Inr (Some \<lparr>bbox = [- 1, - 1, 2, 2], text_field = ''1.99'', confidence = 0.9,
       class_field = ''price_tag'', error_field = None\<rparr>)"
proof -
  have cl: "clamp_box img22 (xyxy box_overhang) = (0, 0, 2, 2)"
    by (simp add: clamp_box_def img22_eq box_overhang_def)
  show ?thesis
    by (simp add: process_box_modal_def cl crop_img22_full pad_img22 NanonetsOCR_extract_text_def
        resize_if_large_img22 test_env_fields ocr_ok_def Let_def)
      (simp add: box_overhang_def bbox_of_def)
qed

lemma to_image_modal_img22: "to_image_modal env (PILImage img22) = Inr img22"
  by (simp add: to_image_modal_def)

theorem stored_bbox_counterexample:
  "detect_and_extract (test_env [box_overhang] ocr_ok) (PILImage img22) =
     Inr \<lparr>count = 1, price_tags =
       [\<lparr>bbox = [- 1, - 1, 2, 2], text_field = ''1.99'', confidence = 0.9,
         class_field = ''price_tag'', error_field = None\<rparr>]\<rparr> \<and>
   detect_and_extract_modal (test_env [box_overhang] ocr_ok) (PILImage img22) =
     Inr \<lparr>count = 1, price_tags =
       [\<lparr>bbox = [- 1, - 1, 2, 2], text_field = ''1.99'', confidence = 0.9,
         class_field = ''price_tag'', error_field = None\<rparr>]\<rparr> \<and>
   bbox_of (clamp_box img22 (xyxy box_overhang)) = [0, 0, 2, 2]"
proof -
  have cl: "bbox_of (clamp_box img22 (xyxy box_overhang)) = [0, 0, 2, 2]"
    by (simp add: clamp_box_def img22_eq box_overhang_def bbox_of_def)
  have 1: "detect_and_extract (test_env [box_overhang] ocr_ok) (PILImage img22) =
     Inr \<lparr>count = 1, price_tags =
       [\<lparr>bbox = [- 1, - 1, 2, 2], text_field = ''1.99'', confidence = 0.9,
         class_field = ''price_tag'', error_field = None\<rparr>]\<rparr>"
    by (simp add: detect_and_extract_def to_rgb_image_img22 test_env_fields
        process_box_overhang_ok)
  have 2: "detect_and_extract_modal (test_env [box_overhang] ocr_ok) (PILImage img22) =
     Inr \<lparr>count = 1, price_tags =
       [\<lparr>bbox = [- 1, - 1, 2, 2], text_field = ''1.99'', confidence = 0.9,
         class_field = ''price_tag'', error_field = None\<rparr>]\<rparr>"
    by (simp add: detect_and_extract_modal_def to_image_modal_img22 test_env_fields
        process_box_modal_overhang_ok)
  from 1 2 cl show ?thesis by blast
qed

lemma extract_text_fails:
  "extraction_fails env p \<Longrightarrow> extract_text env p = []"
  by (auto simp: extraction_fails_def extract_text_def NanonetsOCR_extract_text_def split: sum.splits)

lemma jupyter_returns:
  assumes p: "predict env img 0.1 = Inr results"
    and ok: "\<forall>b \<in> set (concat results).
        (\<exists>c. crop img (xyxy b) = Inr c) \<and> (\<exists>n. names env (cls b) = Some n)"
  shows "\<exists>r. detect_and_extract_jupyter env (PILImage img) = Inr r"
proof -
  from ok have "\<forall>b \<in> set (concat results). \<exists>t. process_box_jupyter env img b = Inr t"
    using process_box_jupyter_returns by blast
  from process_boxes_jupyter_total [OF this, of "[]"] obtain tags
    where "process_boxes_jupyter env img (concat results) [] = Inr tags" by blast
  with p show ?thesis
    by (simp add: detect_and_extract_jupyter_def process_results_jupyter_concat)
qed

lemma failed_extraction_main:
  assumes a: "to_rgb_image env inp = Inr img"
    and b: "predict env img DETECTION_CONF_THRESHOLD = Inr results"
  shows "\<exists>r. detect_and_extract env inp = Inr r \<and>
     count r = int (length (filter (\<lambda>b. \<not> degenerate img b) (concat results))) \<and>
     (\<forall>b p. b \<in> set (concat results) \<and> \<not> degenerate img b \<and>
          padded_crop img b = Inr p \<and> extraction_fails env p \<longrightarrow>
          (\<exists>t \<in> set (price_tags r).
              bbox t = bbox_of (xyxy b) \<and> text_field t = [] \<and> error_field t = None))"
proof -
  let ?tags = "process_boxes env img (concat results) []"
  have "\<exists>t \<in> set ?tags. bbox t = bbox_of (xyxy b) \<and> text_field t = [] \<and> error_field t = None"
    if mem: "b \<in> set (concat results)" and nd: "\<not> degenerate img b"
      and pc: "padded_crop img b = Inr p" and ef: "extraction_fails env p" for b p
  proof -
    from process_box_valid [OF nd, of env] pc obtain t
      where t: "process_box env img b = Inr (Some t)" "bbox t = bbox_of (xyxy b)"
        "error_field t = None" "text_field t = extract_text env p"
      by blast
    from t(1) mem have "t \<in> set ?tags" by (auto simp: process_boxes_set)
    with t extract_text_fails [OF ef] show ?thesis by auto
  qed
  then have "\<forall>b p. b \<in> set (concat results) \<and> \<not> degenerate img b \<and>
          padded_crop img b = Inr p \<and> extraction_fails env p \<longrightarrow>
          (\<exists>t \<in> set ?tags.
              bbox t = bbox_of (xyxy b) \<and> text_field t = [] \<and> error_field t = None)"
    by blast
  moreover have "length ?tags = length (filter (\<lambda>b. \<not> degenerate img b) (concat results))"
    by (simp add: process_boxes_length)
  ultimately show ?thesis
    unfolding detect_and_extract_eq [OF a b]
    by (intro exI [of _ "\<lparr>count = int (length ?tags), price_tags = ?tags\<rparr>"])
      (simp only: extraction_result.simps simp_thms)
qed

text \<open>
  C1, as the code has it. In jupyter/modal_app.py, whenever the call returns, every
  detection has its record, in order, and is counted; a detection whose OCR call raises
  has the record with the raw box, the empty text and the error message. The call returns
  whenever every crop and every class lookup succeeds, whatever the OCR does. In
  price-project/main.py the call returns whenever the input decodes and the detector
  answers; every detection that is not degenerate is counted, and one whose extraction
  fails has a record with the empty text and no error field.
\<close>

theorem failed_extraction_record:
  "(predict env img 0.1 = Inr results \<and> detect_and_extract_jupyter env (PILImage img) = Inr r \<longrightarrow>
      count r = int (length (concat results)) \<and>
      length (price_tags r) = length (concat results) \<and>
      (\<forall>i p e. i < length (concat results) \<and>
          ocr_input_jupyter env img (concat results ! i) = Inr p \<and> generate env p = Inl e \<longrightarrow>
          bbox (price_tags r ! i) = bbox_of (xyxy (concat results ! i)) \<and>
          text_field (price_tags r ! i) = [] \<and>
          error_field (price_tags r ! i) = Some (str e))) \<and>
   (predict env img 0.1 = Inr results \<and>
      (\<forall>b \<in> set (concat results).
          (\<exists>c. crop img (xyxy b) = Inr c) \<and> (\<exists>n. names env (cls b) = Some n)) \<longrightarrow>
      (\<exists>r. detect_and_extract_jupyter env (PILImage img) = Inr r)) \<and>
   (to_rgb_image env inp = Inr img \<and> predict env img DETECTION_CONF_THRESHOLD = Inr results \<longrightarrow>
      (\<exists>r. detect_and_extract env inp = Inr r \<and>
           count r = int (length (filter (\<lambda>b. \<not> degenerate img b) (concat results))) \<and>
           (\<forall>b p. b \<in> set (concat results) \<and> \<not> degenerate img b \<and>
                padded_crop img b = Inr p \<and> extraction_fails env p \<longrightarrow>
                (\<exists>t \<in> set (price_tags r).
                    bbox t = bbox_of (xyxy b) \<and> text_field t = [] \<and> error_field t = None))))"
  using failed_extraction_jupyter [of env img results r] jupyter_returns [of env img results]
    failed_extraction_main [of env inp img results]
  by blast

lemma crop_box_valid: "crop img22 (xyxy box_valid) = Inr img22"
  by (simp add: box_valid_def crop_img22_full)

lemma padded_crop_box_valid: "padded_crop img22 box_valid = Inr img22"
proof -
  have cl: "clamp_box img22 (xyxy box_valid) = (0, 0, 2, 2)"
    by (simp add: clamp_box_def img22_eq box_valid_def)
  show ?thesis by (simp add: padded_crop_def cl crop_img22_full pad_img22)
qed

lemma extraction_fails_example: "extraction_fails (test_env boxes ocr_fails) img22"
  by (simp add: extraction_fails_def NanonetsOCR_extract_text_def resize_if_large_img22
      test_env_fields ocr_fails_def)

lemma process_box_jupyter_failing:
  "process_box_jupyter (test_env boxes ocr_fails) img22 box_valid =
     Inr \<lparr>bbox = [0, 0, 2, 2], text_field = [], confidence = 0.9,
       class_field = ''price_tag'', error_field = Some ''OCR failed''\<rparr>"
  by (simp add: process_box_jupyter_def crop_box_valid test_env_fields pad_img22
      NanonetsOCR_extract_text_jupyter_def ocr_fails_def Let_def)
    (simp add: box_valid_def bbox_of_def)

lemma process_box_failing:
  "process_box (test_env boxes ocr_fails) img22 box_valid =
     Inr (Some \<lparr>bbox = [0, 0, 2, 2], text_field = [], confidence = 0.9,
       class_field = ''price_tag'', error_field = None\<rparr>)"
proof -
  have cl: "clamp_box img22 (xyxy box_valid) = (0, 0, 2, 2)"
    by (simp add: clamp_box_def img22_eq box_valid_def)
  show ?thesis
    by (simp add: process_box_def cl crop_img22_full pad_img22 extract_text_def
        resize_if_large_img22 test_env_fields ocr_fails_def Let_def)
      (simp add: box_valid_def bbox_of_def)
qed

theorem failed_extraction_record_witness:
  "predict (test_env [box_valid] ocr_fails) img22 0.1 = Inr [[box_valid]] \<and>
   detect_and_extract_jupyter (test_env [box_valid] ocr_fails) (PILImage img22) =
     Inr \<lparr>count = 1, price_tags =
       [\<lparr>bbox = [0, 0, 2, 2], text_field = [], confidence = 0.9,
         class_field = ''price_tag'', error_field = Some ''OCR failed''\<rparr>]\<rparr> \<and>
   ocr_input_jupyter (test_env [box_valid] ocr_fails) img22 box_valid = Inr img22 \<and>
   generate (test_env [box_valid] ocr_fails) img22 = Inl (Exception ''OCR failed'') \<and>
   crop img22 (xyxy box_valid) = Inr img22 \<and>
   names (test_env [box_valid] ocr_fails) (cls box_valid) = Some ''price_tag'' \<and>
   to_rgb_image (test_env [box_valid] ocr_fails) (PILImage img22) = Inr img22 \<and>
   predict (test_env [box_valid] ocr_fails) img22 DETECTION_CONF_THRESHOLD = Inr [[box_valid]] \<and>
   \<not> degenerate img22 box_valid \<and>
   padded_crop img22 box_valid = Inr img22 \<and>
   extraction_fails (test_env [box_valid] ocr_fails) img22 \<and>
   (\<exists>r. detect_and_extract (test_env [box_valid] ocr_fails) (PILImage img22) = Inr r \<and>
        count r = 1 \<and>
        (\<exists>t \<in> set (price_tags r).
            bbox t = [0, 0, 2, 2] \<and> text_field t = [] \<and> error_field t = None))"
proof -
  let ?env = "test_env [box_valid] ocr_fails"
  let ?rj = "\<lparr>count = 1, price_tags =
       [\<lparr>bbox = [0, 0, 2, 2], text_field = [], confidence = 0.9 :: real,
         class_field = ''price_tag'', error_field = Some ''OCR failed''\<rparr>]\<rparr>"
  note inst = failed_extraction_record [of ?env img22 "[[box_valid]]" ?rj "PILImage img22"]
  have pj: "predict ?env img22 0.1 = Inr [[box_valid]]" by (simp add: test_env_fields)
  have dj: "detect_and_extract_jupyter ?env (PILImage img22) = Inr ?rj"
    by (simp add: detect_and_extract_jupyter_def pj process_box_jupyter_failing)
  have oi: "ocr_input_jupyter ?env img22 box_valid = Inr img22"
    by (simp add: ocr_input_jupyter_def crop_box_valid test_env_fields pad_img22)
  have gf: "generate ?env img22 = Inl (Exception ''OCR failed'')"
    by (simp add: test_env_fields ocr_fails_def)
  have nm: "names ?env (cls box_valid) = Some ''price_tag''"
    by (simp add: test_env_fields box_valid_def)
  have a: "to_rgb_image ?env (PILImage img22) = Inr img22" by (rule to_rgb_image_img22)
  have b: "predict ?env img22 DETECTION_CONF_THRESHOLD = Inr [[box_valid]]"
    by (simp add: test_env_fields)
  have nd: "\<not> degenerate img22 box_valid" by (rule degenerate_examples)
  note pc = padded_crop_box_valid
  have ef: "extraction_fails ?env img22" by (rule extraction_fails_example)
  from inst [THEN conjunct2, THEN conjunct2, THEN mp, OF conjI [OF a b]]
  obtain r where r: "detect_and_extract ?env (PILImage img22) = Inr r"
    and cnt: "count r = int (length (filter (\<lambda>b. \<not> degenerate img22 b) (concat [[box_valid]])))"
    and rec: "\<forall>b p. b \<in> set (concat [[box_valid]]) \<and> \<not> degenerate img22 b \<and>
                padded_crop img22 b = Inr p \<and> extraction_fails ?env p \<longrightarrow>
                (\<exists>t \<in> set (price_tags r).
                    bbox t = bbox_of (xyxy b) \<and> text_field t = [] \<and> error_field t = None)"
    by blast
  from cnt nd have cnt1: "count r = 1" by simp
  from rec nd pc ef have "\<exists>t \<in> set (price_tags r).
      bbox t = bbox_of (xyxy box_valid) \<and> text_field t = [] \<and> error_field t = None"
    by simp
  then have "\<exists>t \<in> set (price_tags r). bbox t = [0, 0, 2, 2] \<and> text_field t = [] \<and> error_field t = None"
    by (simp add: box_valid_def bbox_of_def)
  with r cnt1 have main: "\<exists>r. detect_and_extract ?env (PILImage img22) = Inr r \<and>
        count r = 1 \<and>
        (\<exists>t \<in> set (price_tags r).
            bbox t = [0, 0, 2, 2] \<and> text_field t = [] \<and> error_field t = None)"
    by blast
  from pj dj oi gf crop_box_valid nm a b nd pc ef main show ?thesis by blast
qed

theorem failed_extraction_counterexample:
  "extraction_fails (test_env [box_valid] ocr_fails) img22 \<and>
   padded_crop img22 box_valid = Inr img22 \<and>
   detect_and_extract (test_env [box_valid] ocr_fails) (PILImage img22) =
     Inr \<lparr>count = 1, price_tags =
       [\<lparr>bbox = [0, 0, 2, 2], text_field = [], confidence = 0.9,
         class_field = ''price_tag'', error_field = None\<rparr>]\<rparr>"
  by (simp add: extraction_fails_example padded_crop_box_valid detect_and_extract_def
      to_rgb_image_img22 test_env_fields process_box_failing)

text \<open>
  In price-project/modal_app.py the OCR call raises inside the \<^verbatim>\<open>try\<close> of the detection, so the
  handler drops the detection: no record is appended.
\<close>

lemma modal_drops_failed_extraction:
  "detect_and_extract_modal (test_env [box_valid] ocr_fails) (PILImage img22) =
     Inr \<lparr>count = 0, price_tags = []\<rparr>"
proof -
  have cl: "clamp_box img22 (xyxy box_valid) = (0, 0, 2, 2)"
    by (simp add: clamp_box_def img22_eq box_valid_def)
  have "process_box_modal (test_env [box_valid] ocr_fails) img22 box_valid =
      Inl (Exception ''OCR failed'')"
    by (simp add: process_box_modal_def cl crop_img22_full pad_img22 NanonetsOCR_extract_text_def
        resize_if_large_img22 test_env_fields ocr_fails_def Let_def)
  then show ?thesis
    by (simp add: detect_and_extract_modal_def to_image_modal_img22 test_env_fields)
qed

section \<open>Which box a record stores\<close>

lemma padded_crop_valid:
  assumes "\<not> degenerate img box"
  shows "\<exists>p. padded_crop img box = Inr p"
  using crop_clamped [OF assms] by (auto simp: padded_crop_def)

lemma process_box_record:
  assumes "\<not> degenerate img box"
  shows "\<exists>t p. process_box env img box = Inr (Some t) \<and> padded_crop img box = Inr p \<and>
           bbox t = bbox_of (xyxy box) \<and> text_field t = extract_text env p \<and>
           confidence t = round3 env (conf box) \<and>
           class_field t = (case names env (cls box) of None \<Rightarrow> ''price_tag'' | Some n \<Rightarrow> n) \<and>
           error_field t = None"
proof -
  obtain x1 y1 x2 y2 where cl: "clamp_box img (xyxy box) = (x1, y1, x2, y2)"
    by (metis prod_cases4)
  with assms have nd: "\<not> (x2 \<le> x1 \<or> y2 \<le> y1)" by (simp add: degenerate_def)
  from crop_clamped [OF assms] cl obtain c where c: "crop img (x1, y1, x2, y2) = Inr c" by auto
  show ?thesis
    using nd by (simp add: process_box_def cl c padded_crop_def Let_def)
qed

lemma process_box_modal_record:
  assumes "kept_modal env img box"
  shows "\<exists>t p. process_box_modal env img box = Inr (Some t) \<and> padded_crop img box = Inr p \<and>
           bbox t = bbox_of (xyxy box) \<and> NanonetsOCR_extract_text env p = Inr (text_field t) \<and>
           confidence t = round3 env (conf box) \<and>
           class_field t = (case names env (cls box) of None \<Rightarrow> ''price_tag'' | Some n \<Rightarrow> n) \<and>
           error_field t = None"
proof -
  from assms have nd: "\<not> degenerate img box" by (simp add: kept_modal_def)
  obtain x1 y1 x2 y2 where cl: "clamp_box img (xyxy box) = (x1, y1, x2, y2)"
    by (metis prod_cases4)
  with nd have ok: "\<not> (x2 \<le> x1 \<or> y2 \<le> y1)" by (simp add: degenerate_def)
  from crop_clamped [OF nd] cl obtain c where c: "crop img (x1, y1, x2, y2) = Inr c" by auto
  then have pc: "padded_crop img box = Inr (pad_to_square c (255, 255, 255))"
    by (simp add: padded_crop_def cl)
  with assms obtain s
    where tx: "NanonetsOCR_extract_text env (pad_to_square c (255, 255, 255)) = Inr s"
    by (auto simp: kept_modal_def extraction_fails_def split: sum.splits)
  show ?thesis
    using ok by (simp add: process_box_modal_def cl c pc tx Let_def)
qed

lemma process_box_modal_dropped:
  assumes "\<not> kept_modal env img box"
  shows "process_box_modal env img box = Inr None \<or> (\<exists>e. process_box_modal env img box = Inl e)"
proof (cases "degenerate img box")
  case True
  then show ?thesis by (simp add: process_box_modal_degenerate)
next
  case False
  obtain x1 y1 x2 y2 where cl: "clamp_box img (xyxy box) = (x1, y1, x2, y2)"
    by (metis prod_cases4)
  with False have ok: "\<not> (x2 \<le> x1 \<or> y2 \<le> y1)" by (simp add: degenerate_def)
  from crop_clamped [OF False] cl obtain c where c: "crop img (x1, y1, x2, y2) = Inr c" by auto
  then have pc: "padded_crop img box = Inr (pad_to_square c (255, 255, 255))"
    by (simp add: padded_crop_def cl)
  with assms False obtain e
    where "NanonetsOCR_extract_text env (pad_to_square c (255, 255, 255)) = Inl e"
    by (auto simp: kept_modal_def extraction_fails_def split: sum.splits)
  then show ?thesis
    using ok by (simp add: process_box_modal_def cl c Let_def)
qed

lemma process_boxes_records:
  "\<exists>new. process_boxes env img boxes acc = acc @ new \<and>
     list_all2 (\<lambda>b t. process_box env img b = Inr (Some t))
       (filter (\<lambda>b. \<not> degenerate img b) boxes) new"
proof (induction boxes arbitrary: acc)
  case Nil
  show ?case by simp
next
  case (Cons b bs)
  show ?case
  proof (cases "degenerate img b")
    case True
    with Cons.IH [of acc] show ?thesis by (simp add: process_box_degenerate)
  next
    case False
    from process_box_record [OF False, of env] obtain t
      where t: "process_box env img b = Inr (Some t)" by blast
    from Cons.IH [of "acc @ [t]"] obtain new
      where "process_boxes env img bs (acc @ [t]) = (acc @ [t]) @ new"
        and "list_all2 (\<lambda>b t. process_box env img b = Inr (Some t))
          (filter (\<lambda>b. \<not> degenerate img b) bs) new"
      by blast
    with t False have "process_boxes env img (b # bs) acc = acc @ (t # new) \<and>
        list_all2 (\<lambda>b t. process_box env img b = Inr (Some t))
          (filter (\<lambda>b. \<not> degenerate img b) (b # bs)) (t # new)"
      by simp
    then show ?thesis by blast
  qed
qed

lemma process_boxes_modal_records:
  "\<exists>new. process_boxes_modal env img boxes acc = acc @ new \<and>
     list_all2 (\<lambda>b t. process_box_modal env img b = Inr (Some t))
       (filter (kept_modal env img) boxes) new"
proof (induction boxes arbitrary: acc)
  case Nil
  show ?case by simp
next
  case (Cons b bs)
  show ?case
  proof (cases "kept_modal env img b")
    case False
    from process_box_modal_dropped [OF False]
    have "process_boxes_modal env img (b # bs) acc = process_boxes_modal env img bs acc"
      by auto
    with Cons.IH [of acc] False show ?thesis by simp
  next
    case True
    from process_box_modal_record [OF True] obtain t
      where t: "process_box_modal env img b = Inr (Some t)" by blast
    from Cons.IH [of "acc @ [t]"] obtain new
      where "process_boxes_modal env img bs (acc @ [t]) = (acc @ [t]) @ new"
        and "list_all2 (\<lambda>b t. process_box_modal env img b = Inr (Some t))
          (filter (kept_modal env img) bs) new"
      by blast
    with t True have "process_boxes_modal env img (b # bs) acc = acc @ (t # new) \<and>
        list_all2 (\<lambda>b t. process_box_modal env img b = Inr (Some t))
          (filter (kept_modal env img) (b # bs)) (t # new)"
      by simp
    then show ?thesis by blast
  qed
qed

lemma stored_records_main:
  assumes a: "to_rgb_image env inp = Inr img"
    and b: "predict env img DETECTION_CONF_THRESHOLD = Inr results"
  shows "\<exists>r. detect_and_extract env inp = Inr r \<and>
     map bbox (price_tags r) =
       map (\<lambda>b. bbox_of (xyxy b)) (filter (\<lambda>b. \<not> degenerate img b) (concat results)) \<and>
     list_all2 (\<lambda>b t.
         bbox t = bbox_of (xyxy b) \<and>
         (\<exists>p. padded_crop img b = Inr p \<and> text_field t = extract_text env p) \<and>
         confidence t = round3 env (conf b) \<and>
         class_field t = (case names env (cls b) of None \<Rightarrow> ''price_tag'' | Some n \<Rightarrow> n) \<and>
         error_field t = None)
       (filter (\<lambda>b. \<not> degenerate img b) (concat results)) (price_tags r)"
proof -
  let ?tags = "process_boxes env img (concat results) []"
  from process_boxes_records [of env img "concat results" "[]"]
  have "list_all2 (\<lambda>b t. process_box env img b = Inr (Some t))
       (filter (\<lambda>b. \<not> degenerate img b) (concat results)) ?tags"
    by auto
  then have "list_all2 (\<lambda>b t.
         bbox t = bbox_of (xyxy b) \<and>
         (\<exists>p. padded_crop img b = Inr p \<and> text_field t = extract_text env p) \<and>
         confidence t = round3 env (conf b) \<and>
         class_field t = (case names env (cls b) of None \<Rightarrow> ''price_tag'' | Some n \<Rightarrow> n) \<and>
         error_field t = None)
       (filter (\<lambda>b. \<not> degenerate img b) (concat results)) ?tags"
  proof (rule list_all2_mono)
    fix b t
    assume bt: "process_box env img b = Inr (Some t)"
    then have "\<not> degenerate img b"
      using process_box_degenerate [of img b env] by auto
    from process_box_record [OF this, of env] bt
    show "bbox t = bbox_of (xyxy b) \<and>
         (\<exists>p. padded_crop img b = Inr p \<and> text_field t = extract_text env p) \<and>
         confidence t = round3 env (conf b) \<and>
         class_field t = (case names env (cls b) of None \<Rightarrow> ''price_tag'' | Some n \<Rightarrow> n) \<and>
         error_field t = None"
      by auto
  qed
  then show ?thesis
    unfolding detect_and_extract_eq [OF a b]
    by (intro exI [of _ "\<lparr>count = int (length ?tags), price_tags = ?tags\<rparr>"])
      (simp add: process_boxes_bbox)
qed

lemma stored_records_modal:
  assumes a: "to_image_modal env inp = Inr img"
    and b: "predict env img 0.25 = Inr results"
  shows "\<exists>r. detect_and_extract_modal env inp = Inr r \<and>
     map bbox (price_tags r) =
       map (\<lambda>b. bbox_of (xyxy b)) (filter (kept_modal env img) (concat results)) \<and>
     list_all2 (\<lambda>b t.
         bbox t = bbox_of (xyxy b) \<and>
         (\<exists>p. padded_crop img b = Inr p \<and> NanonetsOCR_extract_text env p = Inr (text_field t)) \<and>
         confidence t = round3 env (conf b) \<and>
         class_field t = (case names env (cls b) of None \<Rightarrow> ''price_tag'' | Some n \<Rightarrow> n) \<and>
         error_field t = None)
       (filter (kept_modal env img) (concat results)) (price_tags r)"
proof -
  let ?tags = "process_boxes_modal env img (concat results) []"
  let ?P = "\<lambda>b t.
         bbox t = bbox_of (xyxy b) \<and>
         (\<exists>p. padded_crop img b = Inr p \<and> NanonetsOCR_extract_text env p = Inr (text_field t)) \<and>
         confidence t = round3 env (conf b) \<and>
         class_field t = (case names env (cls b) of None \<Rightarrow> ''price_tag'' | Some n \<Rightarrow> n) \<and>
         error_field t = None"
  from process_boxes_modal_records [of env img "concat results" "[]"]
  have all2: "list_all2 (\<lambda>b t. process_box_modal env img b = Inr (Some t))
       (filter (kept_modal env img) (concat results)) ?tags"
    by auto
  have step: "?P b t" if bt: "process_box_modal env img b = Inr (Some t)" for b t
  proof -
    have "kept_modal env img b"
      using process_box_modal_dropped [of env img b] bt by auto
    from process_box_modal_record [OF this] bt show ?thesis by auto
  qed
  from all2 have rec: "list_all2 ?P (filter (kept_modal env img) (concat results)) ?tags"
    by (rule list_all2_mono) (rule step)
  then have "map bbox ?tags = map (\<lambda>b. bbox_of (xyxy b)) (filter (kept_modal env img) (concat results))"
    by (induction rule: list_all2_induct) simp_all
  with rec show ?thesis
    unfolding detect_and_extract_modal_eq [OF a b]
    by (intro exI [of _ "\<lparr>count = int (length ?tags), price_tags = ?tags\<rparr>"]) simp
qed

lemma clamp_box_fixes_iff:
  "clamp_box img (xyxy box) = xyxy box \<longleftrightarrow>
     (case xyxy box of (x1, y1, x2, y2) \<Rightarrow>
        0 \<le> x1 \<and> 0 \<le> y1 \<and> x2 \<le> width img \<and> y2 \<le> height img)"
  by (auto simp: clamp_box_def split: prod.splits)

lemma kept_modal_examples:
  "kept_modal (test_env boxes ocr_ok) img22 box_valid"
  "kept_modal (test_env boxes ocr_ok) img22 box_overhang"
proof -
  have ok: "\<not> extraction_fails (test_env boxes ocr_ok) img22"
    by (simp add: extraction_fails_def NanonetsOCR_extract_text_def resize_if_large_img22
        test_env_fields ocr_ok_def)
  have cl: "clamp_box img22 (xyxy box_overhang) = (0, 0, 2, 2)"
    by (simp add: clamp_box_def img22_eq box_overhang_def)
  have pc: "padded_crop img22 box_overhang = Inr img22"
    by (simp add: padded_crop_def cl crop_img22_full pad_img22)
  show "kept_modal (test_env boxes ocr_ok) img22 box_valid"
    by (simp add: kept_modal_def degenerate_examples padded_crop_box_valid ok)
  show "kept_modal (test_env boxes ocr_ok) img22 box_overhang"
    by (simp add: kept_modal_def degenerate_examples pc ok)
qed

text \<open>
  C4, as the code has it. The box stored in a record is the raw box of its detection, as
  the detector returned it. In main.py the records correspond, one to one and in order,
  to the detections that are not degenerate; in modal_app.py to those that are not
  degenerate and whose text extraction succeeds. The record of a detection holds its raw
  box, its rounded confidence and its class name; the clamped box decides whether the
  detection is degenerate and is the region that is cropped, padded and read, and it
  occurs nowhere else in the record. The clamped box equals the raw box exactly when the
  raw box lies within the image.
\<close>

theorem stored_bbox_is_raw_box:
  "(to_rgb_image env inp = Inr img \<and> predict env img DETECTION_CONF_THRESHOLD = Inr results \<longrightarrow>
      (\<exists>r. detect_and_extract env inp = Inr r \<and>
           map bbox (price_tags r) =
             map (\<lambda>b. bbox_of (xyxy b)) (filter (\<lambda>b. \<not> degenerate img b) (concat results)) \<and>
           list_all2 (\<lambda>b t.
               bbox t = bbox_of (xyxy b) \<and>
               (\<exists>p. padded_crop img b = Inr p \<and> text_field t = extract_text env p) \<and>
               confidence t = round3 env (conf b) \<and>
               class_field t = (case names env (cls b) of None \<Rightarrow> ''price_tag'' | Some n \<Rightarrow> n) \<and>
               error_field t = None)
             (filter (\<lambda>b. \<not> degenerate img b) (concat results)) (price_tags r))) \<and>
   (to_image_modal env inp = Inr img \<and> predict env img 0.25 = Inr results \<longrightarrow>
      (\<exists>r. detect_and_extract_modal env inp = Inr r \<and>
           map bbox (price_tags r) =
             map (\<lambda>b. bbox_of (xyxy b)) (filter (kept_modal env img) (concat results)) \<and>
           list_all2 (\<lambda>b t.
               bbox t = bbox_of (xyxy b) \<and>
               (\<exists>p. padded_crop img b = Inr p \<and>
                    NanonetsOCR_extract_text env p = Inr (text_field t)) \<and>
               confidence t = round3 env (conf b) \<and>
               class_field t = (case names env (cls b) of None \<Rightarrow> ''price_tag'' | Some n \<Rightarrow> n) \<and>
               error_field t = None)
             (filter (kept_modal env img) (concat results)) (price_tags r))) \<and>
   (clamp_box img (xyxy box) = xyxy box \<longleftrightarrow>
      (case xyxy box of (x1, y1, x2, y2) \<Rightarrow>
         0 \<le> x1 \<and> 0 \<le> y1 \<and> x2 \<le> width img \<and> y2 \<le> height img))"
  using stored_records_main [of env inp img results] stored_records_modal [of env inp img results]
    clamp_box_fixes_iff [of img box]
  by blast

theorem stored_bbox_is_raw_box_witness:
  "to_rgb_image (test_env [box_overhang, box_valid] ocr_ok) (PILImage img22) = Inr img22 \<and>
   predict (test_env [box_overhang, box_valid] ocr_ok) img22 DETECTION_CONF_THRESHOLD =
     Inr [[box_overhang, box_valid]] \<and>
   (\<exists>r. detect_and_extract (test_env [box_overhang, box_valid] ocr_ok) (PILImage img22) = Inr r \<and>
        map bbox (price_tags r) = [[- 1, - 1, 2, 2], [0, 0, 2, 2]]) \<and>
   to_image_modal (test_env [box_overhang, box_valid] ocr_ok) (PILImage img22) = Inr img22 \<and>
   predict (test_env [box_overhang, box_valid] ocr_ok) img22 0.25 = Inr [[box_overhang, box_valid]] \<and>
   (\<exists>r. detect_and_extract_modal (test_env [box_overhang, box_valid] ocr_ok) (PILImage img22) = Inr r \<and>
        map bbox (price_tags r) = [[- 1, - 1, 2, 2], [0, 0, 2, 2]]) \<and>
   clamp_box img22 (xyxy box_valid) = xyxy box_valid \<and>
   clamp_box img22 (xyxy box_overhang) \<noteq> xyxy box_overhang"
proof -
  let ?env = "test_env [box_overhang, box_valid] ocr_ok"
  note inst = stored_bbox_is_raw_box [of ?env "PILImage img22" img22 "[[box_overhang, box_valid]]"]
  have a: "to_rgb_image ?env (PILImage img22) = Inr img22" by (rule to_rgb_image_img22)
  have b: "predict ?env img22 DETECTION_CONF_THRESHOLD = Inr [[box_overhang, box_valid]]"
    by (simp add: test_env_fields)
  have a': "to_image_modal ?env (PILImage img22) = Inr img22" by (rule to_image_modal_img22)
  have b': "predict ?env img22 0.25 = Inr [[box_overhang, box_valid]]"
    by (simp add: test_env_fields)
  have raw: "map (\<lambda>b. bbox_of (xyxy b)) [box_overhang, box_valid] = [[- 1, - 1, 2, 2], [0, 0, 2, 2]]"
    by (simp add: box_overhang_def box_valid_def bbox_of_def)
  have f1: "filter (\<lambda>b. \<not> degenerate img22 b) (concat [[box_overhang, box_valid]]) =
      [box_overhang, box_valid]"
    by (simp add: degenerate_examples)
  have f2: "filter (kept_modal ?env img22) (concat [[box_overhang, box_valid]]) =
      [box_overhang, box_valid]"
    by (simp add: kept_modal_examples)
  from inst [of box_valid, THEN conjunct1, THEN mp, OF conjI [OF a b]]
  obtain r1 where "detect_and_extract ?env (PILImage img22) = Inr r1"
    and "map bbox (price_tags r1) =
      map (\<lambda>b. bbox_of (xyxy b))
        (filter (\<lambda>b. \<not> degenerate img22 b) (concat [[box_overhang, box_valid]]))"
    by (elim exE conjE)
  then have "detect_and_extract ?env (PILImage img22) = Inr r1 \<and>
        map bbox (price_tags r1) = [[- 1, - 1, 2, 2], [0, 0, 2, 2]]"
    by (simp only: f1 raw simp_thms)
  then have 1: "\<exists>r. detect_and_extract ?env (PILImage img22) = Inr r \<and>
        map bbox (price_tags r) = [[- 1, - 1, 2, 2], [0, 0, 2, 2]]"
    by (rule exI)
  from inst [of box_valid, THEN conjunct2, THEN conjunct1, THEN mp, OF conjI [OF a' b']]
  obtain r2 where "detect_and_extract_modal ?env (PILImage img22) = Inr r2"
    and "map bbox (price_tags r2) =
      map (\<lambda>b. bbox_of (xyxy b))
        (filter (kept_modal ?env img22) (concat [[box_overhang, box_valid]]))"
    by (elim exE conjE)
  then have "detect_and_extract_modal ?env (PILImage img22) = Inr r2 \<and>
        map bbox (price_tags r2) = [[- 1, - 1, 2, 2], [0, 0, 2, 2]]"
    by (simp only: f2 raw simp_thms)
  then have 2: "\<exists>r. detect_and_extract_modal ?env (PILImage img22) = Inr r \<and>
        map bbox (price_tags r) = [[- 1, - 1, 2, 2], [0, 0, 2, 2]]"
    by (rule exI)
  from inst [of box_valid, THEN conjunct2, THEN conjunct2]
  have 3: "clamp_box img22 (xyxy box_valid) = xyxy box_valid"
    by (simp add: box_valid_def img22_eq)
  from inst [of box_overhang, THEN conjunct2, THEN conjunct2]
  have 4: "clamp_box img22 (xyxy box_overhang) \<noteq> xyxy box_overhang"
    by (simp add: box_overhang_def img22_eq)
  from a b 1 a' b' 2 3 4 show ?thesis by (intro conjI)
qed

section \<open>Properties of the job functions and of job submission\<close>

lemma apply_writes_single: "apply_writes store [(k, v)] = store(k \<mapsto> v)"
  by (simp add: apply_writes_def)

lemma status_of_entries:
  "status_of (completed_entry result) = Some (JStr ''completed'')"
  "status_of (failed_entry e) = Some (JStr ''failed'')"
  "status_of submitted_entry = Some (JStr ''submitted'')"
  by (simp_all add: status_of_def completed_entry_def failed_entry_def submitted_entry_def)

lemma entries_not_submitted:
  "completed_entry result \<noteq> submitted_entry" "failed_entry e \<noteq> submitted_entry"
  by (simp_all add: completed_entry_def failed_entry_def submitted_entry_def)

text \<open>
  C2. A run of \<^verbatim>\<open>process_url_job\<close> or \<^verbatim>\<open>process_file_job\<close> on a submitted job writes the
  status store exactly once, for that job: the completed entry with the result when the
  body succeeds, the failed entry with the message of the exception otherwise, whether
  the fetch, the decoding or the orchestrator raised it. Afterwards the job is not in
  state submitted. Failures are the exceptions that \<^verbatim>\<open>except Exception\<close> catches.
\<close>

theorem job_run_ends_in_terminal_state:
  "store job_id = Some submitted_entry \<longrightarrow>
     (\<exists>entry. process_url_job_writes env job_id url = [(job_id, entry)] \<and>
        process_url_job env job_id url store = store(job_id \<mapsto> entry) \<and>
        entry = (case url_job_result env url of
                   Inr result \<Rightarrow> completed_entry result
                 | Inl e \<Rightarrow> failed_entry e) \<and>
        (status_of entry = Some (JStr ''completed'') \<or> status_of entry = Some (JStr ''failed'')) \<and>
        process_url_job env job_id url store job_id \<noteq> Some submitted_entry) \<and>
     (\<exists>entry. process_file_job_writes env job_id file_data = [(job_id, entry)] \<and>
        process_file_job env job_id file_data store = store(job_id \<mapsto> entry) \<and>
        entry = (case file_job_result env file_data of
                   Inr result \<Rightarrow> completed_entry result
                 | Inl e \<Rightarrow> failed_entry e) \<and>
        (status_of entry = Some (JStr ''completed'') \<or> status_of entry = Some (JStr ''failed'')) \<and>
        process_file_job env job_id file_data store job_id \<noteq> Some submitted_entry) \<and>
     (\<forall>e. requests_get env url = Inl e \<longrightarrow> url_job_result env url = Inl e) \<and>
     (\<forall>e content. requests_get env url = Inr content \<and> image_open env content = Inl e \<longrightarrow>
          url_job_result env url = Inl e) \<and>
     (\<forall>e content im img. requests_get env url = Inr content \<and> image_open env content = Inr im \<and>
          convert_rgb env im = Inr img \<and> detect_and_extract_modal env (PILImage img) = Inl e \<longrightarrow>
          url_job_result env url = Inl e) \<and>
     (\<forall>e. image_open env file_data = Inl e \<longrightarrow> file_job_result env file_data = Inl e)"
proof (intro impI conjI)
  show "\<exists>entry. process_url_job_writes env job_id url = [(job_id, entry)] \<and>
        process_url_job env job_id url store = store(job_id \<mapsto> entry) \<and>
        entry = (case url_job_result env url of
                   Inr result \<Rightarrow> completed_entry result
                 | Inl e \<Rightarrow> failed_entry e) \<and>
        (status_of entry = Some (JStr ''completed'') \<or> status_of entry = Some (JStr ''failed'')) \<and>
        process_url_job env job_id url store job_id \<noteq> Some submitted_entry"
    by (cases "url_job_result env url")
      (simp_all add: process_url_job_def process_url_job_writes_def apply_writes_single
        status_of_entries entries_not_submitted)
  show "\<exists>entry. process_file_job_writes env job_id file_data = [(job_id, entry)] \<and>
        process_file_job env job_id file_data store = store(job_id \<mapsto> entry) \<and>
        entry = (case file_job_result env file_data of
                   Inr result \<Rightarrow> completed_entry result
                 | Inl e \<Rightarrow> failed_entry e) \<and>
        (status_of entry = Some (JStr ''completed'') \<or> status_of entry = Some (JStr ''failed'')) \<and>
        process_file_job env job_id file_data store job_id \<noteq> Some submitted_entry"
    by (cases "file_job_result env file_data")
      (simp_all add: process_file_job_def process_file_job_writes_def apply_writes_single
        status_of_entries entries_not_submitted)
qed (simp_all add: url_job_result_def file_job_result_def)

theorem job_run_ends_in_terminal_state_witness:
  "store_submitted ''job_1a2b3c4d'' = Some submitted_entry \<and>
   requests_get (test_env [] ocr_ok) ''http://unreachable'' = Inl (RequestException ''connection error'') \<and>
   process_url_job_writes (test_env [] ocr_ok) ''job_1a2b3c4d'' ''http://unreachable'' =
     [(''job_1a2b3c4d'', [(''status'', JStr ''failed''), (''error'', JStr ''connection error'')])] \<and>
   process_url_job (test_env [] ocr_ok) ''job_1a2b3c4d'' ''http://unreachable'' store_submitted
       ''job_1a2b3c4d'' =
     Some [(''status'', JStr ''failed''), (''error'', JStr ''connection error'')] \<and>
   process_file_job (test_env [] ocr_ok) ''job_1a2b3c4d'' [1] store_submitted ''job_1a2b3c4d'' =
     Some [(''status'', JStr ''completed''), (''result'', JResult \<lparr>count = 0, price_tags = []\<rparr>)]"
proof -
  let ?env = "test_env [] ocr_ok"
  have s: "store_submitted ''job_1a2b3c4d'' = Some submitted_entry"
    by (simp add: store_submitted_def)
  have g: "requests_get ?env ''http://unreachable'' = Inl (RequestException ''connection error'')"
    by (simp add: test_env_def)
  have u: "url_job_result ?env ''http://unreachable'' = Inl (RequestException ''connection error'')"
    by (simp add: url_job_result_def g)
  have conv: "img22\<lparr>mode := ''RGB''\<rparr> = img22" by (simp add: img22_eq)
  have f: "file_job_result ?env [1] = Inr \<lparr>count = 0, price_tags = []\<rparr>"
    by (simp add: file_job_result_def test_env_def conv detect_and_extract_modal_def
        to_image_modal_def)
  from job_run_ends_in_terminal_state [of store_submitted "''job_1a2b3c4d''" ?env
      "''http://unreachable''" "[1]", THEN mp, OF s]
  have "process_url_job_writes ?env ''job_1a2b3c4d'' ''http://unreachable'' =
      [(''job_1a2b3c4d'', failed_entry (RequestException ''connection error''))] \<and>
    process_url_job ?env ''job_1a2b3c4d'' ''http://unreachable'' store_submitted ''job_1a2b3c4d'' =
      Some (failed_entry (RequestException ''connection error'')) \<and>
    process_file_job ?env ''job_1a2b3c4d'' [1] store_submitted ''job_1a2b3c4d'' =
      Some (completed_entry \<lparr>count = 0, price_tags = []\<rparr>)"
    unfolding u f by auto
  with s g show ?thesis
    by (simp add: failed_entry_def completed_entry_def)
qed

text \<open>
  C9, as the code has it. With a URL in the request, submission stores the entry
  \<^verbatim>\<open>{"status": "submitted", "result": None}\<close> under the new job id, whatever was stored
  there before, leaves the other entries as they are, spawns the job and answers with
  the job id; it never fails on an id that is already in the store. Without a URL it
  fails with status 400 and changes nothing.
\<close>

theorem submit_job_url_sets_submitted:
  "(truthy (dict_get request ''url'') \<longrightarrow>
      fst (submit_job_url request uuid_hex st) =
        Inr [(''job_id'', JStr (new_job_id uuid_hex)), (''status'', JStr ''submitted'')] \<and>
      job_statuses (snd (submit_job_url request uuid_hex st)) (new_job_id uuid_hex) =
        Some submitted_entry \<and>
      (\<forall>k. k \<noteq> new_job_id uuid_hex \<longrightarrow>
          job_statuses (snd (submit_job_url request uuid_hex st)) k = job_statuses st k) \<and>
      spawned (snd (submit_job_url request uuid_hex st)) =
        spawned st @ [(new_job_id uuid_hex, dict_get request ''url'')]) \<and>
   (\<not> truthy (dict_get request ''url'') \<longrightarrow>
      submit_job_url request uuid_hex st = (Inl (HTTPException 400 ''URL is required''), st))"
  by (simp add: submit_job_url_def Let_def)

theorem submit_job_url_sets_submitted_witness:
  "truthy (dict_get url_request ''url'') \<and>
   fst (submit_job_url url_request ''0123456789abcdef0123456789abcdef'' state_with_job) =
     Inr [(''job_id'', JStr ''job_01234567''), (''status'', JStr ''submitted'')] \<and>
   job_statuses (snd (submit_job_url url_request ''0123456789abcdef0123456789abcdef'' state_with_job))
       ''job_01234567'' =
     Some [(''status'', JStr ''submitted''), (''result'', JNull)] \<and>
   job_statuses (snd (submit_job_url url_request ''0123456789abcdef0123456789abcdef'' state_with_job))
       ''job_deadbeef'' =
     job_statuses state_with_job ''job_deadbeef'' \<and>
   \<not> truthy (dict_get (Map.empty :: string \<rightharpoonup> real jvalue) ''url'') \<and>
   submit_job_url Map.empty ''0123456789abcdef0123456789abcdef'' state_with_job =
     (Inl (HTTPException 400 ''URL is required''), state_with_job)"
proof -
  have t: "truthy (dict_get url_request ''url'')"
    by (simp add: dict_get_def url_request_def)
  have n: "new_job_id ''0123456789abcdef0123456789abcdef'' = ''job_01234567''"
    by (simp add: new_job_id_def)
  have e: "\<not> truthy (dict_get (Map.empty :: string \<rightharpoonup> real jvalue) ''url'')"
    by (simp add: dict_get_def)
  from submit_job_url_sets_submitted [of url_request "''0123456789abcdef0123456789abcdef''"
      state_with_job] t
    submit_job_url_sets_submitted [of Map.empty "''0123456789abcdef0123456789abcdef''"
      state_with_job] e
  show ?thesis
    unfolding n by (simp add: submitted_entry_def)
qed

theorem submit_job_url_duplicate_counterexample:
  "job_statuses state_with_job ''job_deadbeef'' =
     Some [(''status'', JStr ''completed''), (''result'', JResult \<lparr>count = 0, price_tags = []\<rparr>)] \<and>
   new_job_id ''deadbeef0123456789abcdef01234567'' = ''job_deadbeef'' \<and>
   fst (submit_job_url url_request ''deadbeef0123456789abcdef01234567'' state_with_job) =
     Inr [(''job_id'', JStr ''job_deadbeef''), (''status'', JStr ''submitted'')] \<and>
   job_statuses (snd (submit_job_url url_request ''deadbeef0123456789abcdef01234567'' state_with_job))
       ''job_deadbeef'' =
     Some [(''status'', JStr ''submitted''), (''result'', JNull)]"
  by (simp add: state_with_job_def completed_entry_def empty_result_def new_job_id_def
      submit_job_url_def dict_get_def url_request_def submitted_entry_def Let_def)

end
